theory Spec2Isabelle
  imports Complex_Main "HOL-Library.Word"
begin

section \<open>Feishu media utilities (src/main/im/feishuMedia.ts)\<close>

text \<open>
  A shallow embedding of \<^verbatim>\<open>feishuMedia.ts\<close>. JavaScript strings are modelled as
  \<^typ>\<open>string\<close>, read as the UTF-8 bytes of the text; every literal the source compares
  against or searches for is ASCII. Values of type \<^verbatim>\<open>any\<close> (the SDK response, thrown
  values) are modelled by the datatype \<open>jsval\<close>; its numbers are the integers.
\<close>

subsection \<open>Strings\<close>

definition startsWith :: "string \<Rightarrow> string \<Rightarrow> bool" where
  "startsWith s p = (take (length p) s = p)"

text \<open>
  \<^verbatim>\<open>String.prototype.toLowerCase\<close>, on the ASCII letters. (JavaScript also lowers
  letters outside ASCII; a character outside ASCII is never lowered to \<open>.\<close>, \<open>/\<close>,
  \<open>\\<close> or \<open>:\<close>, nor to a letter of the extension tables below.)
\<close>

definition lower_char :: "char \<Rightarrow> char" where
  "lower_char c =
     (let n = (of_char c :: nat) in if 65 \<le> n \<and> n \<le> 90 then char_of (n + 32) else c)"

definition toLowerCase :: "string \<Rightarrow> string" where
  "toLowerCase s = map lower_char s"

subsection \<open>\<^verbatim>\<open>path.extname\<close> of Node.js\<close>

text \<open>
  \<^verbatim>\<open>import * as path from 'path'\<close> binds \<^verbatim>\<open>path.posix\<close> or \<^verbatim>\<open>path.win32\<close>
  according to the platform the application runs on. \<open>extname\<close> is the loop of
  Node's \<^verbatim>\<open>lib/path.js\<close>: it scans the path from its last character down to
  \<open>start\<close>, with the five variables of the original.
\<close>

datatype platform = Posix | Win32

definition isPathSeparator :: "platform \<Rightarrow> char \<Rightarrow> bool" where
  "isPathSeparator plat c = (c = CHR ''/'' \<or> (plat = Win32 \<and> c = CHR 0x5C))"

definition isWindowsDeviceRoot :: "char \<Rightarrow> bool" where
  "isWindowsDeviceRoot c =
     (let n = (of_char c :: nat) in (65 \<le> n \<and> n \<le> 90) \<or> (97 \<le> n \<and> n \<le> 122))"

record extname_state =
  startDot :: int
  startPart :: nat
  endPos :: int
  matchedSlash :: bool
  preDotState :: int

text \<open>
  \<open>extname_loop plat path start n st\<close> runs the iterations \<open>i = n - 1, n - 2, ..., start\<close>
  of \<^verbatim>\<open>for (let i = path.length - 1; i >= start; --i)\<close>; a \<^verbatim>\<open>break\<close> returns the
  state at once.
\<close>

fun extname_loop :: "platform \<Rightarrow> string \<Rightarrow> nat \<Rightarrow> nat \<Rightarrow> extname_state \<Rightarrow> extname_state" where
  "extname_loop plat path start 0 st = st"
| "extname_loop plat path start (Suc i) st =
     (if i < start then st
      else if isPathSeparator plat (path ! i) then
        (if \<not> matchedSlash st then st\<lparr>startPart := i + 1\<rparr>
         else extname_loop plat path start i st)
      else
        (let st1 = (if endPos st = - 1
                    then st\<lparr>matchedSlash := False, endPos := int i + 1\<rparr> else st);
             st2 = (if path ! i = CHR ''.'' then
                      (if startDot st1 = - 1 then st1\<lparr>startDot := int i\<rparr>
                       else if preDotState st1 \<noteq> 1 then st1\<lparr>preDotState := 1\<rparr>
                       else st1)
                    else if startDot st1 \<noteq> - 1 then st1\<lparr>preDotState := - 1\<rparr>
                    else st1)
         in extname_loop plat path start i st2))"

definition extname_start :: "platform \<Rightarrow> string \<Rightarrow> nat" where
  "extname_start plat path =
     (if plat = Win32 \<and> length path \<ge> 2 \<and> path ! 1 = CHR '':'' \<and> isWindowsDeviceRoot (path ! 0)
      then 2 else 0)"

definition extname :: "platform \<Rightarrow> string \<Rightarrow> string" where
  "extname plat path =
     (let start = extname_start plat path;
          st = extname_loop plat path start (length path)
                 \<lparr>startDot = - 1, startPart = start, endPos = - 1,
                  matchedSlash = True, preDotState = 0\<rparr>
      in if startDot st = - 1 \<or> endPos st = - 1 \<or> preDotState st = 0 \<or>
            (preDotState st = 1 \<and> startDot st = endPos st - 1 \<and>
             startDot st = int (startPart st) + 1)
         then []
         else take (nat (endPos st) - nat (startDot st)) (drop (nat (startDot st)) path))"

subsection \<open>File classification\<close>

datatype FeishuFileType = Opus | Mp4 | Pdf | Doc | Xls | Ppt | Stream

text \<open>The string each member of the TypeScript union \<^verbatim>\<open>FeishuFileType\<close> stands for.\<close>

fun FeishuFileType_text :: "FeishuFileType \<Rightarrow> string" where
  "FeishuFileType_text Opus = ''opus''"
| "FeishuFileType_text Mp4 = ''mp4''"
| "FeishuFileType_text Pdf = ''pdf''"
| "FeishuFileType_text Doc = ''doc''"
| "FeishuFileType_text Xls = ''xls''"
| "FeishuFileType_text Ppt = ''ppt''"
| "FeishuFileType_text Stream = ''stream''"

definition IMAGE_EXTENSIONS :: "string list" where
  "IMAGE_EXTENSIONS =
     [''.jpg'', ''.jpeg'', ''.png'', ''.gif'', ''.webp'', ''.bmp'', ''.ico'', ''.tiff'']"

definition detectFeishuFileType :: "platform \<Rightarrow> string \<Rightarrow> FeishuFileType" where
  "detectFeishuFileType plat fileName =
     (let ext = toLowerCase (extname plat fileName) in
      if ext = ''.opus'' \<or> ext = ''.ogg'' then Opus
      else if ext = ''.mp4'' \<or> ext = ''.mov'' \<or> ext = ''.avi'' then Mp4
      else if ext = ''.pdf'' then Pdf
      else if ext = ''.doc'' \<or> ext = ''.docx'' then Doc
      else if ext = ''.xls'' \<or> ext = ''.xlsx'' then Xls
      else if ext = ''.ppt'' \<or> ext = ''.pptx'' then Ppt
      else Stream)"

definition isFeishuImagePath :: "platform \<Rightarrow> string \<Rightarrow> bool" where
  "isFeishuImagePath plat filePath =
     (let ext = toLowerCase (extname plat filePath) in ext \<in> set IMAGE_EXTENSIONS)"

definition isFeishuAudioPath :: "platform \<Rightarrow> string \<Rightarrow> bool" where
  "isFeishuAudioPath plat filePath =
     (let ext = toLowerCase (extname plat filePath) in
      ext \<in> set [''.opus'', ''.ogg'', ''.mp3'', ''.wav'', ''.m4a'', ''.aac'', ''.amr''])"

text \<open>
  The last component of a path, as \<^verbatim>\<open>path.basename\<close> returns it: trailing separators
  are dropped, then everything up to the last separator (and a Windows drive prefix).
\<close>

definition basename :: "platform \<Rightarrow> string \<Rightarrow> string" where
  "basename plat path =
     rev (takeWhile (\<lambda>c. \<not> isPathSeparator plat c)
            (dropWhile (isPathSeparator plat) (rev (drop (extname_start plat path) path))))"

text \<open>
  The extension of a single path component \<open>b\<close>, stated on the component: nothing when
  \<open>b\<close> has no dot, when its only dot is its first character or when \<open>b\<close> is \<open>..\<close>;
  otherwise the text from the last dot on. \<open>extname_eq\<close> below proves that the loop
  computes exactly this.
\<close>

definition component_ext :: "string \<Rightarrow> string" where
  "component_ext b =
     (let e = takeWhile (\<lambda>c. c \<noteq> CHR ''.'') (rev b);
          d = dropWhile (\<lambda>c. c \<noteq> CHR ''.'') (rev b)
      in if d = [] \<or> tl d = [] \<or> b = ''..'' then [] else CHR ''.'' # rev e)"

text \<open>
  The same loop as \<open>extname_loop\<close>, over the characters still to be read (last one
  first) instead of an index; used to reason about the loop by induction on lists.
\<close>

fun scan :: "platform \<Rightarrow> nat \<Rightarrow> string \<Rightarrow> extname_state \<Rightarrow> extname_state" where
  "scan plat start [] st = st"
| "scan plat start (c # cs) st =
     (if isPathSeparator plat c then
        (if \<not> matchedSlash st then st\<lparr>startPart := start + length cs + 1\<rparr>
         else scan plat start cs st)
      else
        (let st1 = (if endPos st = - 1
                    then st\<lparr>matchedSlash := False, endPos := int (start + length cs) + 1\<rparr>
                    else st);
             st2 = (if c = CHR ''.'' then
                      (if startDot st1 = - 1 then st1\<lparr>startDot := int (start + length cs)\<rparr>
                       else if preDotState st1 \<noteq> 1 then st1\<lparr>preDotState := 1\<rparr>
                       else st1)
                    else if startDot st1 \<noteq> - 1 then st1\<lparr>preDotState := - 1\<rparr>
                    else st1)
         in scan plat start cs st2))"

text \<open>The table of the specification: extension (lower case) to category.\<close>

definition file_type_table :: "(string \<times> FeishuFileType) list" where
  "file_type_table =
     [(''.opus'', Opus), (''.ogg'', Opus),
      (''.mp4'', Mp4), (''.mov'', Mp4), (''.avi'', Mp4),
      (''.pdf'', Pdf),
      (''.doc'', Doc), (''.docx'', Doc),
      (''.xls'', Xls), (''.xlsx'', Xls),
      (''.ppt'', Ppt), (''.pptx'', Ppt)]"

definition classify_by_table :: "string \<Rightarrow> FeishuFileType" where
  "classify_by_table ext = (case map_of file_type_table ext of Some t \<Rightarrow> t | None \<Rightarrow> Stream)"

subsection \<open>JavaScript values\<close>

datatype jsval =
    JUndefined
  | JNull
  | JBool bool
  | JNum int
  | JStr string
  | JObj "(string \<times> jsval) list"

fun truthy :: "jsval \<Rightarrow> bool" where
  "truthy JUndefined = False"
| "truthy JNull = False"
| "truthy (JBool b) = b"
| "truthy (JNum n) = (n \<noteq> 0)"
| "truthy (JStr s) = (s \<noteq> [])"
| "truthy (JObj ps) = True"

fun nullish :: "jsval \<Rightarrow> bool" where
  "nullish JUndefined = True"
| "nullish JNull = True"
| "nullish v = False"

definition digit_char :: "nat \<Rightarrow> char" where
  "digit_char n = ''0123456789'' ! n"

function show_nat :: "nat \<Rightarrow> string" where
  "show_nat n = (if n < 10 then [digit_char n] else show_nat (n div 10) @ [digit_char (n mod 10)])"
  by pat_completeness auto
termination
  by (relation "measure id") auto

declare show_nat.simps [simp del]

definition show_int :: "int \<Rightarrow> string" where
  "show_int n = (if n < 0 then CHR ''-'' # show_nat (nat (- n)) else show_nat (nat n))"

text \<open>
  The string a template literal \<^verbatim>\<open>`${v}`\<close> inserts for \<open>v\<close> (\<^verbatim>\<open>ToString\<close>); an
  object is a plain object, and a number prints in decimal, as JavaScript prints the
  integers below \<open>10^21\<close> in magnitude.
\<close>

fun js_toString :: "jsval \<Rightarrow> string" where
  "js_toString JUndefined = ''undefined''"
| "js_toString JNull = ''null''"
| "js_toString (JBool b) = (if b then ''true'' else ''false'')"
| "js_toString (JNum n) = show_int n"
| "js_toString (JStr s) = s"
| "js_toString (JObj ps) = ''[object Object]''"

definition mk_error :: "string \<Rightarrow> string \<Rightarrow> jsval" where
  "mk_error name msg = JObj [(''name'', JStr name), (''message'', JStr msg)]"

text \<open>\<open>own_prop v k\<close> is \<^verbatim>\<open>v.k\<close> for a \<open>v\<close> that is neither undefined nor null.\<close>

fun own_prop :: "jsval \<Rightarrow> string \<Rightarrow> jsval" where
  "own_prop (JObj ps) k = (case map_of ps k of Some v \<Rightarrow> v | None \<Rightarrow> JUndefined)"
| "own_prop v k = JUndefined"

text \<open>\<^verbatim>\<open>v.k\<close>: reading a property of undefined or null throws a TypeError.\<close>

definition get_prop :: "jsval \<Rightarrow> string \<Rightarrow> jsval + jsval" where
  "get_prop v k =
     (if nullish v
      then Inl (mk_error ''TypeError''
                  (''Cannot read properties of '' @ js_toString v @ '' (reading '' @
                   [CHR 0x27] @ k @ [CHR 0x27] @ '')''))
      else Inr (own_prop v k))"

text \<open>\<^verbatim>\<open>v?.k\<close> and \<^verbatim>\<open>a ?? b\<close>.\<close>

definition opt_chain :: "jsval \<Rightarrow> string \<Rightarrow> jsval" where
  "opt_chain v k = (if nullish v then JUndefined else own_prop v k)"

definition nullish_coalesce :: "jsval \<Rightarrow> jsval \<Rightarrow> jsval" where
  "nullish_coalesce a b = (if nullish a then b else a)"

subsection \<open>The upload functions\<close>

definition MAX_FILE_SIZE :: nat where
  "MAX_FILE_SIZE = 30 * 1024 * 1024"

text \<open>
  \<^verbatim>\<open>x.toFixed(1)\<close>: the integer \<open>n\<close> with \<open>n / 10\<close> closest to \<open>x\<close>, the larger one on
  a tie, printed with one digit after the point (for \<open>\<bar>x\<bar>\<close> below \<open>10^21\<close>, which a
  size in MiB is). The argument is the exact value of the number:
  \<^verbatim>\<open>size / 1024 / 1024\<close> divides an integer by powers of two, which IEEE doubles do
  without rounding.
\<close>

definition toFixed1 :: "rat \<Rightarrow> string" where
  "toFixed1 x =
     (let a = \<bar>x\<bar>; n = nat \<lfloor>10 * a + 1 / 2\<rfloor>
      in (if x < 0 then ''-'' else []) @ show_nat (n div 10) @ ''.'' @ show_nat (n mod 10))"

datatype source = Path string | Buffer "8 word list"

datatype image_kind = Message | Avatar

datatype stream = FileStream string | BufferStream "8 word list"

record image_request =
  data_image_type :: image_kind
  data_image :: stream

record file_request =
  data_file_type :: FeishuFileType
  data_file_name :: string
  data_file :: stream
  data_duration :: "int option"

text \<open>
  The argument \<^verbatim>\<open>{ data: { ... } }\<close> of an SDK call is a record of the fields of
  \<^verbatim>\<open>data\<close>.
\<close>

datatype remote_call = ImageCreate image_request | FileCreate file_request

text \<open>
  What awaiting an SDK call gives: the response, or the value it threw or rejected with.
  \<open>closes_stream\<close> records whether the SDK read the stream it was handed to its end or
  destroyed it, which is what closes a file stream's descriptor.
\<close>

datatype outcome = Resolved jsval | Rejected jsval

record reply =
  outcome :: outcome
  closes_stream :: bool

text \<open>
  The parameter \<^verbatim>\<open>client: any\<close>, by the two operations the code calls on it, and the
  two functions of \<^verbatim>\<open>fs\<close> it uses: \<^verbatim>\<open>statSync\<close> returns the size or throws,
  \<^verbatim>\<open>createReadStream\<close> may throw.
\<close>

record client =
  image_create :: "image_request \<Rightarrow> reply"
  file_create :: "file_request \<Rightarrow> reply"

record filesystem =
  statSync :: "string \<Rightarrow> jsval + nat"
  createReadStream :: "string \<Rightarrow> jsval option"

text \<open>
  The effects of a call: the requests submitted to the remote endpoint, in order, and
  the file streams created and not closed since.
\<close>

record world =
  calls :: "remote_call list"
  open_streams :: "string list"

record FeishuImageUploadResult =
  success :: bool
  imageKey :: "jsval option"
  error :: "jsval option"

record FeishuFileUploadResult =
  fsuccess :: bool
  fileKey :: "jsval option"
  ferror :: "jsval option"

definition size_text :: "nat \<Rightarrow> string" where
  "size_text n = toFixed1 (of_nat n / 1024 / 1024)"

text \<open>Lines 68 to 82: the response of \<^verbatim>\<open>client.im.image.create\<close>.\<close>

definition image_response :: "jsval \<Rightarrow> jsval + FeishuImageUploadResult" where
  "image_response responseAny =
     (case get_prop responseAny ''code'' of
        Inl e \<Rightarrow> Inl e
      | Inr code \<Rightarrow>
          if code \<noteq> JUndefined \<and> code \<noteq> JNum 0 then
            (let msg = own_prop responseAny ''msg'' in
             Inr \<lparr>success = False, imageKey = None,
                  error = Some (JStr (''Feishu error: '' @
                    js_toString (if truthy msg then msg
                                 else JStr (''code '' @ js_toString code))))\<rparr>)
          else
            (let imageKey = nullish_coalesce (own_prop responseAny ''image_key'')
                              (opt_chain (own_prop responseAny ''data'') ''image_key'') in
             if \<not> truthy imageKey
             then Inr \<lparr>success = False, imageKey = None,
                       error = Some (JStr ''No image_key returned'')\<rparr>
             else Inr \<lparr>success = True, imageKey = Some imageKey, error = None\<rparr>))"

text \<open>Lines 56 to 66: the stream is created, then the request is submitted.\<close>

definition image_send ::
  "filesystem \<Rightarrow> client \<Rightarrow> world \<Rightarrow> source \<Rightarrow> image_kind \<Rightarrow>
   (jsval + FeishuImageUploadResult) \<times> world" where
  "image_send fs cl w imageSource imageType =
     (case (case imageSource of
              Path p \<Rightarrow>
                (case createReadStream fs p of
                   Some e \<Rightarrow> Inl e
                 | None \<Rightarrow> Inr (FileStream p, w\<lparr>open_streams := open_streams w @ [p]\<rparr>))
            | Buffer b \<Rightarrow> Inr (BufferStream b, w)) of
        Inl e \<Rightarrow> (Inl e, w)
      | Inr (imageStream, w1) \<Rightarrow>
          (let req = \<lparr>data_image_type = imageType, data_image = imageStream\<rparr>;
               rep = image_create cl req;
               w2 = w1\<lparr>calls := calls w1 @ [ImageCreate req],
                       open_streams :=
                         (case imageStream of
                            FileStream p \<Rightarrow>
                              if closes_stream rep then butlast (open_streams w1)
                              else open_streams w1
                          | BufferStream b \<Rightarrow> open_streams w1)\<rparr>
           in case outcome rep of
                Rejected e \<Rightarrow> (Inl e, w2)
              | Resolved response \<Rightarrow> (image_response response, w2)))"

text \<open>Lines 40 to 82: the body of the \<^verbatim>\<open>try\<close> block; \<open>Inl\<close> is a thrown value.\<close>

definition image_try ::
  "filesystem \<Rightarrow> client \<Rightarrow> world \<Rightarrow> source \<Rightarrow> image_kind \<Rightarrow>
   (jsval + FeishuImageUploadResult) \<times> world" where
  "image_try fs cl w imageSource imageType =
     (case imageSource of
        Path p \<Rightarrow>
          (case statSync fs p of
             Inl e \<Rightarrow> (Inl e, w)
           | Inr stats_size \<Rightarrow>
               if stats_size > MAX_FILE_SIZE
               then (Inr \<lparr>success = False, imageKey = None,
                          error = Some (JStr (''Image too large: '' @ size_text stats_size @
                                              ''MB (limit 30MB)''))\<rparr>, w)
               else image_send fs cl w imageSource imageType)
      | Buffer b \<Rightarrow>
          if length b > MAX_FILE_SIZE
          then (Inr \<lparr>success = False, imageKey = None,
                     error = Some (JStr (''Image too large: '' @ size_text (length b) @
                                         ''MB (limit 30MB)''))\<rparr>, w)
          else image_send fs cl w imageSource imageType)"

text \<open>
  \<open>uploadImageToFeishu\<close>: the \<^verbatim>\<open>try\<close> block and its \<^verbatim>\<open>catch\<close>, which reads
  \<^verbatim>\<open>error.message\<close>. The result \<open>Inl v\<close> is the promise rejected with \<open>v\<close>: an exception
  that reaches the caller. The optional parameter \<open>imageType\<close> defaults to
  \<^verbatim>\<open>'message'\<close>.
\<close>

definition uploadImageToFeishu ::
  "filesystem \<Rightarrow> client \<Rightarrow> world \<Rightarrow> source \<Rightarrow> image_kind option \<Rightarrow>
   (jsval + FeishuImageUploadResult) \<times> world" where
  "uploadImageToFeishu fs cl w imageSource imageType =
     (case image_try fs cl w imageSource (case imageType of None \<Rightarrow> Message | Some t \<Rightarrow> t) of
        (Inr result, w') \<Rightarrow> (Inr result, w')
      | (Inl err, w') \<Rightarrow>
          (case get_prop err ''message'' of
             Inl e \<Rightarrow> (Inl e, w')
           | Inr m \<Rightarrow> (Inr \<lparr>success = False, imageKey = None, error = Some m\<rparr>, w')))"

text \<open>Lines 134 to 147: the response of \<^verbatim>\<open>client.im.file.create\<close>.\<close>

definition file_response :: "jsval \<Rightarrow> jsval + FeishuFileUploadResult" where
  "file_response responseAny =
     (case get_prop responseAny ''code'' of
        Inl e \<Rightarrow> Inl e
      | Inr code \<Rightarrow>
          if code \<noteq> JUndefined \<and> code \<noteq> JNum 0 then
            (let msg = own_prop responseAny ''msg'' in
             Inr \<lparr>fsuccess = False, fileKey = None,
                  ferror = Some (JStr (''Feishu error: '' @
                    js_toString (if truthy msg then msg
                                 else JStr (''code '' @ js_toString code))))\<rparr>)
          else
            (let fileKey = nullish_coalesce (own_prop responseAny ''file_key'')
                             (opt_chain (own_prop responseAny ''data'') ''file_key'') in
             if \<not> truthy fileKey
             then Inr \<lparr>fsuccess = False, fileKey = None,
                       ferror = Some (JStr ''No file_key returned'')\<rparr>
             else Inr \<lparr>fsuccess = True, fileKey = Some fileKey, ferror = None\<rparr>))"

text \<open>
  Lines 120 to 132. \<^verbatim>\<open>...(duration !== undefined && { duration })\<close> adds the field
  exactly when a duration was given: \<open>data_duration\<close> is the parameter.
\<close>

definition file_send ::
  "filesystem \<Rightarrow> client \<Rightarrow> world \<Rightarrow> source \<Rightarrow> string \<Rightarrow> FeishuFileType \<Rightarrow> int option \<Rightarrow>
   (jsval + FeishuFileUploadResult) \<times> world" where
  "file_send fs cl w fileSource fileName fileType duration =
     (case (case fileSource of
              Path p \<Rightarrow>
                (case createReadStream fs p of
                   Some e \<Rightarrow> Inl e
                 | None \<Rightarrow> Inr (FileStream p, w\<lparr>open_streams := open_streams w @ [p]\<rparr>))
            | Buffer b \<Rightarrow> Inr (BufferStream b, w)) of
        Inl e \<Rightarrow> (Inl e, w)
      | Inr (fileStream, w1) \<Rightarrow>
          (let req = \<lparr>data_file_type = fileType, data_file_name = fileName,
                      data_file = fileStream, data_duration = duration\<rparr>;
               rep = file_create cl req;
               w2 = w1\<lparr>calls := calls w1 @ [FileCreate req],
                       open_streams :=
                         (case fileStream of
                            FileStream p \<Rightarrow>
                              if closes_stream rep then butlast (open_streams w1)
                              else open_streams w1
                          | BufferStream b \<Rightarrow> open_streams w1)\<rparr>
           in case outcome rep of
                Rejected e \<Rightarrow> (Inl e, w2)
              | Resolved response \<Rightarrow> (file_response response, w2)))"

definition file_try ::
  "filesystem \<Rightarrow> client \<Rightarrow> world \<Rightarrow> source \<Rightarrow> string \<Rightarrow> FeishuFileType \<Rightarrow> int option \<Rightarrow>
   (jsval + FeishuFileUploadResult) \<times> world" where
  "file_try fs cl w fileSource fileName fileType duration =
     (case fileSource of
        Path p \<Rightarrow>
          (case statSync fs p of
             Inl e \<Rightarrow> (Inl e, w)
           | Inr stats_size \<Rightarrow>
               if stats_size > MAX_FILE_SIZE
               then (Inr \<lparr>fsuccess = False, fileKey = None,
                          ferror = Some (JStr (''File too large: '' @ size_text stats_size @
                                               ''MB (limit 30MB)''))\<rparr>, w)
               else file_send fs cl w fileSource fileName fileType duration)
      | Buffer b \<Rightarrow>
          if length b > MAX_FILE_SIZE
          then (Inr \<lparr>fsuccess = False, fileKey = None,
                     ferror = Some (JStr (''Buffer too large: '' @ size_text (length b) @
                                          ''MB (limit 30MB)''))\<rparr>, w)
          else file_send fs cl w fileSource fileName fileType duration)"

definition uploadFileToFeishu ::
  "filesystem \<Rightarrow> client \<Rightarrow> world \<Rightarrow> source \<Rightarrow> string \<Rightarrow> FeishuFileType \<Rightarrow> int option \<Rightarrow>
   (jsval + FeishuFileUploadResult) \<times> world" where
  "uploadFileToFeishu fs cl w fileSource fileName fileType duration =
     (case file_try fs cl w fileSource fileName fileType duration of
        (Inr result, w') \<Rightarrow> (Inr result, w')
      | (Inl err, w') \<Rightarrow>
          (case get_prop err ''message'' of
             Inl e \<Rightarrow> (Inl e, w')
           | Inr m \<Rightarrow> (Inr \<lparr>fsuccess = False, fileKey = None, ferror = Some m\<rparr>, w')))"

text \<open>The byte length of a byte source, when it has one (\<open>statSync\<close> may throw).\<close>

definition source_size :: "filesystem \<Rightarrow> source \<Rightarrow> nat option" where
  "source_size fs src =
     (case src of
        Path p \<Rightarrow> (case statSync fs p of Inl e \<Rightarrow> None | Inr n \<Rightarrow> Some n)
      | Buffer b \<Rightarrow> Some (length b))"

text \<open>The stream the upload functions build for a source.\<close>

definition stream_of :: "source \<Rightarrow> stream" where
  "stream_of src = (case src of Path p \<Rightarrow> FileStream p | Buffer b \<Rightarrow> BufferStream b)"

definition stream_fails :: "filesystem \<Rightarrow> source \<Rightarrow> jsval option" where
  "stream_fails fs src = (case src of Path p \<Rightarrow> createReadStream fs p | Buffer b \<Rightarrow> None)"

subsection \<open>\<^verbatim>\<open>resolveFeishuMediaPath\<close>\<close>

text \<open>
  \<^verbatim>\<open>String.prototype.replace\<close> with a string pattern replaces the first occurrence of
  the pattern; the replacement text is a template in which \<^verbatim>\<open>$$\<close> stands for a dollar
  sign, \<^verbatim>\<open>$&\<close> for the matched text, \<^verbatim>\<open>$`\<close> for the text before the match and
  \<^verbatim>\<open>$'\<close> for the text after it (\<^verbatim>\<open>GetSubstitution\<close> with no captures).
\<close>

fun getSubstitution :: "string \<Rightarrow> string \<Rightarrow> string \<Rightarrow> string \<Rightarrow> string" where
  "getSubstitution matched preceding following [] = []"
| "getSubstitution matched preceding following [c] = [c]"
| "getSubstitution matched preceding following (c # d # ds) =
     (if c = CHR ''$'' \<and> d = CHR ''$'' then CHR ''$'' # getSubstitution matched preceding following ds
      else if c = CHR ''$'' \<and> d = CHR ''&'' then matched @ getSubstitution matched preceding following ds
      else if c = CHR ''$'' \<and> d = CHR 0x60 then preceding @ getSubstitution matched preceding following ds
      else if c = CHR ''$'' \<and> d = CHR 0x27 then following @ getSubstitution matched preceding following ds
      else c # getSubstitution matched preceding following (d # ds))"

fun split_first :: "string \<Rightarrow> string \<Rightarrow> (string \<times> string) option" where
  "split_first pat [] = (if pat = [] then Some ([], []) else None)"
| "split_first pat (c # cs) =
     (if startsWith (c # cs) pat then Some ([], drop (length pat) (c # cs))
      else (case split_first pat cs of
              None \<Rightarrow> None
            | Some (pre, post) \<Rightarrow> Some (c # pre, post)))"

definition js_replace :: "string \<Rightarrow> string \<Rightarrow> string \<Rightarrow> string" where
  "js_replace s pat replacement =
     (case split_first pat s of
        None \<Rightarrow> s
      | Some (pre, post) \<Rightarrow> pre @ getSubstitution pat pre post replacement @ post)"

text \<open>
  \<^verbatim>\<open>decodeURIComponent\<close> (the \<^verbatim>\<open>Decode\<close> operation of ECMA-262): a character other
  than \<open>%\<close> is copied; \<open>%XX\<close> is a byte; a byte with its high bit set must start a
  well-formed UTF-8 sequence whose other bytes are escapes too. Anything else throws a
  URIError. On UTF-8 text the decoded character is the bytes of the sequence.
\<close>

definition hex_val :: "char \<Rightarrow> nat option" where
  "hex_val c =
     (let n = (of_char c :: nat) in
      if 48 \<le> n \<and> n \<le> 57 then Some (n - 48)
      else if 65 \<le> n \<and> n \<le> 70 then Some (n - 55)
      else if 97 \<le> n \<and> n \<le> 102 then Some (n - 87)
      else None)"

definition parseHexOctet :: "char \<Rightarrow> char \<Rightarrow> nat option" where
  "parseHexOctet h1 h2 =
     (case hex_val h1 of
        None \<Rightarrow> None
      | Some a \<Rightarrow> (case hex_val h2 of None \<Rightarrow> None | Some b \<Rightarrow> Some (16 * a + b)))"

definition leading_ones :: "nat \<Rightarrow> nat" where
  "leading_ones b =
     (if b < 128 then 0 else if b < 192 then 1 else if b < 224 then 2
      else if b < 240 then 3 else if b < 248 then 4 else 5)"

fun read_continuations :: "nat \<Rightarrow> string \<Rightarrow> (nat list \<times> string) option" where
  "read_continuations 0 s = Some ([], s)"
| "read_continuations (Suc j) (p # h1 # h2 # s) =
     (if p = CHR ''%'' then
        (case parseHexOctet h1 h2 of
           None \<Rightarrow> None
         | Some b \<Rightarrow>
             (case read_continuations j s of
                None \<Rightarrow> None
              | Some (bs, r) \<Rightarrow> Some (b # bs, r)))
      else None)"
| "read_continuations (Suc j) s = None"

definition continuation :: "nat \<Rightarrow> bool" where
  "continuation b = (128 \<le> b \<and> b \<le> 191)"

fun valid_utf8 :: "nat list \<Rightarrow> bool" where
  "valid_utf8 [a, b] = (194 \<le> a \<and> a \<le> 223 \<and> continuation b)"
| "valid_utf8 [a, b, c] =
     (((a = 224 \<and> 160 \<le> b \<and> b \<le> 191) \<or> (225 \<le> a \<and> a \<le> 236 \<and> continuation b) \<or>
       (a = 237 \<and> 128 \<le> b \<and> b \<le> 159) \<or> (238 \<le> a \<and> a \<le> 239 \<and> continuation b)) \<and>
      continuation c)"
| "valid_utf8 [a, b, c, d] =
     (((a = 240 \<and> 144 \<le> b \<and> b \<le> 191) \<or> (241 \<le> a \<and> a \<le> 243 \<and> continuation b) \<or>
       (a = 244 \<and> 128 \<le> b \<and> b \<le> 143)) \<and>
      continuation c \<and> continuation d)"
| "valid_utf8 bs = False"

definition URIError :: jsval where
  "URIError = mk_error ''URIError'' ''URI malformed''"

function decodeURIComponent :: "string \<Rightarrow> jsval + string" where
  "decodeURIComponent [] = Inr []"
| "decodeURIComponent (c # cs) =
     (if c \<noteq> CHR ''%'' then
        (case decodeURIComponent cs of Inl e \<Rightarrow> Inl e | Inr r \<Rightarrow> Inr (c # r))
      else
        (case cs of
           h1 # h2 # s \<Rightarrow>
             (case parseHexOctet h1 h2 of
                None \<Rightarrow> Inl URIError
              | Some b \<Rightarrow>
                  if leading_ones b = 0 then
                    (case decodeURIComponent s of
                       Inl e \<Rightarrow> Inl e
                     | Inr r \<Rightarrow> Inr (char_of b # r))
                  else if leading_ones b = 1 \<or> leading_ones b > 4 then Inl URIError
                  else
                    (case read_continuations (leading_ones b - 1) s of
                       None \<Rightarrow> Inl URIError
                     | Some (bs, s') \<Rightarrow>
                         if valid_utf8 (b # bs) then
                           (case decodeURIComponent s' of
                              Inl e \<Rightarrow> Inl e
                            | Inr r \<Rightarrow> Inr (map char_of (b # bs) @ r))
                         else Inl URIError))
         | _ \<Rightarrow> Inl URIError))"
  by pat_completeness auto
termination
proof -
  have shorter: "read_continuations j s = Some (bs, r) \<Longrightarrow> length r \<le> length s"
    for j s bs r
    by (induction j s arbitrary: bs r rule: read_continuations.induct)
       (fastforce split: if_splits option.splits)+
  show ?thesis
    by (relation "measure length") (auto dest: shorter)
qed

text \<open>
  \<open>home\<close> is \<^verbatim>\<open>process.env.HOME\<close>, \<open>None\<close> when the variable is not set. \<open>Inl\<close> is
  the URIError \<^verbatim>\<open>decodeURIComponent\<close> throws, which nothing here catches.
\<close>

definition resolveFeishuMediaPath :: "string option \<Rightarrow> string \<Rightarrow> jsval + string" where
  "resolveFeishuMediaPath home rawPath =
     (case (if startsWith rawPath ''file:///''
            then decodeURIComponent (js_replace rawPath ''file://'' [])
            else Inr rawPath) of
        Inl e \<Rightarrow> Inl e
      | Inr resolved \<Rightarrow>
          Inr (if startsWith resolved ''~''
               then js_replace resolved ''~''
                      (case home of None \<Rightarrow> [] | Some h \<Rightarrow> if h \<noteq> [] then h else [])
               else resolved))"

subsection \<open>Notions the claims are stated with\<close>

text \<open>
  What awaiting the SDK call gives for the request the upload function builds from its
  arguments.
\<close>

definition image_reply :: "client \<Rightarrow> source \<Rightarrow> image_kind option \<Rightarrow> outcome" where
  "image_reply cl src ty =
     outcome (image_create cl
       \<lparr>data_image_type = (case ty of None \<Rightarrow> Message | Some t \<Rightarrow> t),
        data_image = stream_of src\<rparr>)"

definition file_reply ::
  "client \<Rightarrow> source \<Rightarrow> string \<Rightarrow> FeishuFileType \<Rightarrow> int option \<Rightarrow> outcome" where
  "file_reply cl src name ft dur =
     outcome (file_create cl
       \<lparr>data_file_type = ft, data_file_name = name,
        data_file = stream_of src, data_duration = dur\<rparr>)"

text \<open>
  The key of a response: the top-level field unless it is undefined or null, else the
  field under \<open>data\<close>. \<open>image_response_code\<close> below proves that this is the key the
  code extracts.
\<close>

definition response_key :: "jsval \<Rightarrow> string \<Rightarrow> jsval" where
  "response_key r k =
     (if nullish (own_prop r k) then opt_chain (own_prop r ''data'') k else own_prop r k)"

subsection \<open>Example environments\<close>

text \<open>
  An empty world; a file system in which every path has \<open>n\<close> bytes; a client that
  answers every request with the response \<open>r\<close> after reading the stream, and one whose
  calls reject with \<open>e\<close> without touching the stream.
\<close>

definition w0 :: world where
  "w0 = \<lparr>calls = [], open_streams = []\<rparr>"

definition fs_sized :: "nat \<Rightarrow> filesystem" where
  "fs_sized n = \<lparr>statSync = (\<lambda>p. Inr n), createReadStream = (\<lambda>p. None)\<rparr>"

definition replying :: "jsval \<Rightarrow> client" where
  "replying r =
     \<lparr>image_create = (\<lambda>req. \<lparr>outcome = Resolved r, closes_stream = True\<rparr>),
      file_create = (\<lambda>req. \<lparr>outcome = Resolved r, closes_stream = True\<rparr>)\<rparr>"

definition rejecting :: "jsval \<Rightarrow> client" where
  "rejecting e =
     \<lparr>image_create = (\<lambda>req. \<lparr>outcome = Rejected e, closes_stream = False\<rparr>),
      file_create = (\<lambda>req. \<lparr>outcome = Rejected e, closes_stream = False\<rparr>)\<rparr>"

section \<open>Properties\<close>

subsection \<open>The extension loop\<close>

lemma loop_scan:
  "start \<le> n \<Longrightarrow> n \<le> length p \<Longrightarrow>
   extname_loop plat p start n st = scan plat start (rev (drop start (take n p))) st"
proof (induction n arbitrary: st)
  case 0
  then show ?case by simp
next
  case (Suc n)
  show ?case
  proof (cases "n < start")
    case True
    with Suc.prems have "start = Suc n" by simp
    then show ?thesis using True by simp
  next
    case False
    then have sn: "start \<le> n" by simp
    from Suc.prems have nl: "n < length p" by simp
    have tk: "rev (drop start (take (Suc n) p)) = p ! n # rev (drop start (take n p))"
      using sn nl by (simp add: take_Suc_conv_app_nth)
    have len: "start + length (rev (drop start (take n p))) = n"
      using sn nl by simp
    have ih: "\<And>st. extname_loop plat p start n st = scan plat start (rev (drop start (take n p))) st"
      using Suc.IH sn nl by simp
    show ?thesis
      using False len unfolding tk
      by (simp add: ih Let_def add.commute)
  qed
qed


lemma scan_after_dot:
  assumes "startDot st \<noteq> - 1" "endPos st \<noteq> - 1" "\<not> matchedSlash st" "startPart st = start"
  shows "startDot (scan plat start cs st) = startDot st"
    and "endPos (scan plat start cs st) = endPos st"
    and "startPart (scan plat start cs st) =
           start + length (dropWhile (\<lambda>c. \<not> isPathSeparator plat c) cs)"
    and "preDotState (scan plat start cs st) =
           (let pre = takeWhile (\<lambda>c. \<not> isPathSeparator plat c) cs
            in if pre = [] then preDotState st else if last pre = CHR ''.'' then 1 else - 1)"
  using assms
  by (induction cs arbitrary: st; simp add: Let_def)+


lemma length_take_drop_While: "length (takeWhile P xs) + length (dropWhile P xs) = length xs"
  by (induction xs) auto


lemma scan_before_dot:
  assumes "startDot st = - 1" "endPos st \<noteq> - 1" "\<not> matchedSlash st" "startPart st = start"
    "preDotState st = 0"
  shows "endPos (scan plat start cs st) = endPos st \<and>
         startPart (scan plat start cs st) =
           start + length (dropWhile (\<lambda>c. \<not> isPathSeparator plat c) cs) \<and>
         startDot (scan plat start cs st) =
           (let d = dropWhile (\<lambda>c. c \<noteq> CHR ''.'') (takeWhile (\<lambda>c. \<not> isPathSeparator plat c) cs)
            in if d = [] then - 1
               else int (start + length (dropWhile (\<lambda>c. \<not> isPathSeparator plat c) cs) + length (tl d))) \<and>
         preDotState (scan plat start cs st) =
           (let d = dropWhile (\<lambda>c. c \<noteq> CHR ''.'') (takeWhile (\<lambda>c. \<not> isPathSeparator plat c) cs)
            in if d = [] \<or> tl d = [] then 0 else if last (tl d) = CHR ''.'' then 1 else - 1)"
  using assms
proof (induction cs arbitrary: st)
  case Nil
  then show ?case by simp
next
  case (Cons c cs)
  show ?case
  proof (cases "isPathSeparator plat c")
    case True
    then show ?thesis using Cons.prems by simp
  next
    case False
    show ?thesis
    proof (cases "c = CHR ''.''")
      case True
      define st2 where "st2 = st\<lparr>startDot := int (start + length cs)\<rparr>"
      have step: "scan plat start (c # cs) st = scan plat start cs st2"
        using False True Cons.prems by (simp add: st2_def)
      have pre: "startDot st2 \<noteq> - 1" "endPos st2 \<noteq> - 1" "\<not> matchedSlash st2" "startPart st2 = start"
        using Cons.prems by (simp_all add: st2_def)
      have len: "length cs = length (takeWhile (\<lambda>c. \<not> isPathSeparator plat c) cs)
                   + length (dropWhile (\<lambda>c. \<not> isPathSeparator plat c) cs)"
        by (simp add: length_take_drop_While)
      have flds: "startDot st2 = int (start + length cs)" "endPos st2 = endPos st"
        "preDotState st2 = 0"
        using Cons.prems by (simp_all add: st2_def)
      note C = scan_after_dot [OF pre, of plat cs]
      show ?thesis
        unfolding step
        using False True len
        by (simp add: C flds Let_def)
    next
      case ndot: False
      have step: "scan plat start (c # cs) st = scan plat start cs st"
        using False ndot Cons.prems by simp
      show ?thesis
        unfolding step using Cons.IH [OF Cons.prems] False ndot by (auto simp add: Let_def)
    qed
  qed
qed


lemma scan_initial:
  fixes plat start cs
  defines "st0 \<equiv> \<lparr>startDot = - 1, startPart = start, endPos = - 1,
                     matchedSlash = True, preDotState = 0\<rparr>"
  defines "r1 \<equiv> dropWhile (isPathSeparator plat) cs"
  defines "d \<equiv> dropWhile (\<lambda>c. c \<noteq> CHR ''.'') (takeWhile (\<lambda>c. \<not> isPathSeparator plat c) r1)"
  shows "endPos (scan plat start cs st0) = (if r1 = [] then - 1 else int (start + length r1)) \<and>
         startPart (scan plat start cs st0) =
           start + length (dropWhile (\<lambda>c. \<not> isPathSeparator plat c) r1) \<and>
         startDot (scan plat start cs st0) =
           (if d = [] then - 1
            else int (start + length (dropWhile (\<lambda>c. \<not> isPathSeparator plat c) r1) + length (tl d))) \<and>
         preDotState (scan plat start cs st0) =
           (if d = [] \<or> tl d = [] then 0 else if last (tl d) = CHR ''.'' then 1 else - 1)"
  unfolding r1_def d_def
proof (induction cs)
  case Nil
  show ?case by (simp add: st0_def)
next
  case (Cons c cs)
  show ?case
  proof (cases "isPathSeparator plat c")
    case True
    have step0: "scan plat start (c # cs) st0 = scan plat start cs st0"
      using True by (simp add: st0_def)
    have dw0: "dropWhile (isPathSeparator plat) (c # cs) = dropWhile (isPathSeparator plat) cs"
      using True by simp
    show ?thesis unfolding step0 dw0 by (rule Cons.IH)
  next
    case False
    define st1 where "st1 = st0\<lparr>matchedSlash := False, endPos := int (start + length cs) + 1\<rparr>"
    have step: "scan plat start (c # cs) st0 = scan plat start (c # cs) st1"
      using False by (simp add: st0_def st1_def Let_def)
    have pre: "startDot st1 = - 1" "endPos st1 \<noteq> - 1" "\<not> matchedSlash st1" "startPart st1 = start"
      "preDotState st1 = 0"
      by (simp_all add: st0_def st1_def)
    have e: "endPos st1 = int (start + length (c # cs))"
      by (simp add: st1_def)
    note B = scan_before_dot [OF pre, of plat "c # cs"]
    have dw: "dropWhile (isPathSeparator plat) (c # cs) = c # cs"
      using False by simp
    show ?thesis
      unfolding step dw using B e False by (simp add: Let_def)
  qed
qed

lemma extname_start_le: "extname_start plat path \<le> length path"
  by (simp add: extname_start_def)

lemma extname_eq: "extname plat path = component_ext (basename plat path)"
proof -
  define start where "start = extname_start plat path"
  define cs where "cs = rev (drop start path)"
  define seps where "seps = takeWhile (isPathSeparator plat) cs"
  define r1 where "r1 = dropWhile (isPathSeparator plat) cs"
  define comp where "comp = takeWhile (\<lambda>c. \<not> isPathSeparator plat c) r1"
  define rest where "rest = dropWhile (\<lambda>c. \<not> isPathSeparator plat c) r1"
  define e where "e = takeWhile (\<lambda>c. c \<noteq> CHR ''.'') comp"
  define d where "d = dropWhile (\<lambda>c. c \<noteq> CHR ''.'') comp"
  define st where "st = extname_loop plat path start (length path)
     \<lparr>startDot = - 1, startPart = start, endPos = - 1, matchedSlash = True, preDotState = 0\<rparr>"
  have sl: "start \<le> length path"
    by (simp add: start_def extname_start_le)
  have st_scan: "st = scan plat start cs
     \<lparr>startDot = - 1, startPart = start, endPos = - 1, matchedSlash = True, preDotState = 0\<rparr>"
    unfolding st_def cs_def using loop_scan [OF sl, of path plat] by simp
  have S: "endPos st = (if r1 = [] then - 1 else int (start + length r1))"
    "startPart st = start + length rest"
    "startDot st = (if d = [] then - 1 else int (start + length rest + length (tl d)))"
    "preDotState st = (if d = [] \<or> tl d = [] then 0 else if last (tl d) = CHR ''.'' then 1 else - 1)"
    using scan_initial [of plat start cs]
    unfolding st_scan r1_def rest_def d_def comp_def by simp_all
  have b: "basename plat path = rev comp"
    by (simp add: basename_def comp_def r1_def cs_def start_def)
  have comp_split: "comp = e @ d"
    by (simp add: e_def d_def)
  have r1_split: "r1 = comp @ rest"
    by (simp add: comp_def rest_def)
  have cs_split: "cs = seps @ r1"
    by (simp add: seps_def r1_def)
  have path_split: "path = take start path @ rev rest @ rev d @ rev e @ rev seps"
  proof -
    have "drop start path = rev cs" by (simp add: cs_def)
    also have "\<dots> = rev rest @ rev d @ rev e @ rev seps"
      by (simp add: cs_split r1_split comp_split)
    finally have "drop start path = rev rest @ rev d @ rev e @ rev seps" .
    then show ?thesis by (metis append_take_drop_id)
  qed
  have ext: "extname plat path =
     (if startDot st = - 1 \<or> endPos st = - 1 \<or> preDotState st = 0 \<or>
            (preDotState st = 1 \<and> startDot st = endPos st - 1 \<and>
             startDot st = int (startPart st) + 1)
         then []
         else take (nat (endPos st) - nat (startDot st)) (drop (nat (startDot st)) path))"
    by (simp add: extname_def Let_def st_def start_def)
  have cext: "component_ext (rev comp) =
     (if d = [] \<or> tl d = [] \<or> rev comp = ''..'' then [] else CHR ''.'' # rev e)"
    by (simp only: component_ext_def Let_def e_def d_def rev_rev_ident)
  show ?thesis
  proof (cases "d = []")
    case True
    then show ?thesis by (simp add: ext b cext S)
  next
    case dne: False
    have "hd d = CHR ''.''"
      using dne hd_dropWhile [of "\<lambda>c. c \<noteq> CHR ''.''" comp] by (simp add: d_def)
    with dne obtain t where d_eq: "d = CHR ''.'' # t"
      by (cases d) auto
    show ?thesis
    proof (cases "t = []")
      case True
      then show ?thesis using d_eq by (simp add: ext b cext S)
    next
      case tne: False
      have r1ne: "r1 \<noteq> []" using r1_split comp_split d_eq by simp
      have lr1: "length r1 = length e + 1 + length t + length rest"
        using r1_split comp_split d_eq by simp
      have dotdot: "(last t = CHR ''.'' \<and> e = [] \<and> length t = 1) \<longleftrightarrow> rev comp = ''..''"
      proof
        assume a: "last t = CHR ''.'' \<and> e = [] \<and> length t = 1"
        then obtain x where "t = [x]" by (cases t) auto
        with a show "rev comp = ''..''" by (simp add: comp_split d_eq)
      next
        assume "rev comp = ''..''"
        then have "comp = ''..''" by (simp add: rev_swap)
        then have "e = []" by (simp add: e_def)
        with \<open>comp = ''..''\<close> comp_split d_eq have "t = ''.''" by simp
        with \<open>e = []\<close> show "last t = CHR ''.'' \<and> e = [] \<and> length t = 1" by simp
      qed
      have slice: "take (length e + 1) (drop (start + length rest + length t) path) = CHR ''.'' # rev e"
      proof -
        have "drop (start + length rest + length t)
                (take start path @ rev rest @ rev d @ rev e @ rev seps) = CHR ''.'' # rev e @ rev seps"
          using sl by (simp add: d_eq)
        then have "drop (start + length rest + length t) path = CHR ''.'' # rev e @ rev seps"
          using path_split by simp
        then show ?thesis by simp
      qed
      show ?thesis
      proof (cases "rev comp = ''..''")
        case True
        with dotdot have "last t = CHR ''.''" "e = []" "length t = 1" by auto
        then have e0: "extname plat path = []"
          using d_eq tne r1ne lr1 by (simp add: ext S)
        have c0: "component_ext (rev comp) = []"
          unfolding cext using True by simp
        show ?thesis by (simp only: e0 b c0)
      next
        case False
        with dotdot have nd: "\<not> (last t = CHR ''.'' \<and> e = [] \<and> length t = 1)" by simp
        have "extname plat path = take (length e + 1) (drop (start + length rest + length t) path)"
          using nd d_eq tne r1ne lr1 by (auto simp add: ext S nat_add_distrib)
        moreover have "component_ext (rev comp) = CHR ''.'' # rev e"
          unfolding cext using False d_eq tne by simp
        ultimately show ?thesis by (simp only: slice b)
      qed
    qed
  qed
qed

subsection \<open>Lower case\<close>

lemma lower_char_range:
  "of_char (lower_char c) = (let n = (of_char c :: nat) in if 65 \<le> n \<and> n \<le> 90 then n + 32 else n)"
  by (simp add: lower_char_def Let_def)

lemma lower_char_eq_iff:
  assumes "(of_char x :: nat) < 65 \<or> (90 < (of_char x :: nat) \<and> (of_char x :: nat) < 97) \<or> 122 < (of_char x :: nat)"
  shows "lower_char c = x \<longleftrightarrow> c = x"
proof
  assume "lower_char c = x"
  then have "(of_char (lower_char c) :: nat) = of_char x" by simp
  then have "(of_char c :: nat) = of_char x"
    using assms by (auto simp add: lower_char_range Let_def split: if_splits)
  then show "c = x" by simp
next
  assume "c = x"
  then show "lower_char c = x" using assms by (auto simp add: lower_char_def Let_def)
qed

lemma lower_char_dot: "lower_char c = CHR ''.'' \<longleftrightarrow> c = CHR ''.''"
  by (rule lower_char_eq_iff) simp

lemma lower_char_colon: "lower_char c = CHR '':'' \<longleftrightarrow> c = CHR '':''"
  by (rule lower_char_eq_iff) simp

lemma lower_char_sep: "isPathSeparator plat (lower_char c) = isPathSeparator plat c"
proof -
  have "lower_char c = CHR ''/'' \<longleftrightarrow> c = CHR ''/''" by (rule lower_char_eq_iff) simp
  moreover have "lower_char c = CHR 0x5C \<longleftrightarrow> c = CHR 0x5C" by (rule lower_char_eq_iff) simp
  ultimately show ?thesis by (simp add: isPathSeparator_def)
qed

lemma lower_char_root: "isWindowsDeviceRoot (lower_char c) = isWindowsDeviceRoot c"
  by (auto simp add: isWindowsDeviceRoot_def lower_char_range Let_def)

lemma sep_lower_comp: "isPathSeparator plat \<circ> lower_char = isPathSeparator plat"
  by (rule ext) (simp add: lower_char_sep)

lemma nsep_lower_comp:
  "(\<lambda>c. \<not> isPathSeparator plat c) \<circ> lower_char = (\<lambda>c. \<not> isPathSeparator plat c)"
  by (rule ext) (simp add: lower_char_sep)

lemma ndot_lower_comp: "(\<lambda>c. c \<noteq> CHR ''.'') \<circ> lower_char = (\<lambda>c. c \<noteq> CHR ''.'')"
  by (rule ext) (simp add: lower_char_dot)

lemma extname_start_toLowerCase: "extname_start plat (toLowerCase p) = extname_start plat p"
  by (cases p rule: list.exhaust; cases "tl p")
     (auto simp add: extname_start_def toLowerCase_def lower_char_colon lower_char_root)

lemma basename_toLowerCase: "basename plat (toLowerCase p) = toLowerCase (basename plat p)"
  unfolding basename_def extname_start_toLowerCase
  by (simp add: toLowerCase_def drop_map rev_map dropWhile_map takeWhile_map
      sep_lower_comp nsep_lower_comp)

lemma dotdot_toLowerCase: "toLowerCase b = ''..'' \<longleftrightarrow> b = ''..''"
  by (auto simp add: toLowerCase_def lower_char_dot map_eq_Cons_conv)

lemma lower_char_dot_self: "lower_char CHR ''.'' = CHR ''.''"
  by (simp add: lower_char_dot)

lemma component_ext_toLowerCase: "component_ext (toLowerCase b) = toLowerCase (component_ext b)"
  unfolding component_ext_def dotdot_toLowerCase
  by (auto simp add: toLowerCase_def rev_map dropWhile_map takeWhile_map ndot_lower_comp Let_def
      lower_char_dot_self map_tl [symmetric] simp del: map_tl)

lemma extname_toLowerCase: "extname plat (toLowerCase p) = toLowerCase (extname plat p)"
  by (simp add: extname_eq basename_toLowerCase component_ext_toLowerCase)

lemma detect_table: "detectFeishuFileType plat f = classify_by_table (toLowerCase (extname plat f))"
  by (simp add: detectFeishuFileType_def classify_by_table_def file_type_table_def Let_def)

lemma component_ext_no_inner_dot:
  assumes "CHR ''.'' \<notin> set (tl b)"
  shows "component_ext b = []"
proof (cases b)
  case Nil
  then show ?thesis by (simp add: component_ext_def)
next
  case (Cons x t)
  with assms have nd: "CHR ''.'' \<notin> set (rev t)" by simp
  have "dropWhile (\<lambda>c. c \<noteq> CHR ''.'') (rev b) = dropWhile (\<lambda>c. c \<noteq> CHR ''.'') [x]"
    using nd by (simp add: Cons dropWhile_append)
  then show ?thesis by (simp add: component_ext_def Let_def)
qed

subsection \<open>Classification by extension\<close>

text \<open>
  Claim C6. \<open>detectFeishuFileType\<close> is a total function of the file name's extension
  (the extension \<open>extname\<close> finds, which is \<open>component_ext\<close> of the last path
  component), read without regard to letter case, through the fixed table
  \<open>file_type_table\<close>: \<open>.opus\<close> and \<open>.ogg\<close> give opus; \<open>.mp4\<close>, \<open>.mov\<close> and \<open>.avi\<close>
  give mp4; \<open>.pdf\<close> gives pdf; \<open>.doc\<close> and \<open>.docx\<close> give doc; \<open>.xls\<close> and \<open>.xlsx\<close>
  give xls; \<open>.ppt\<close> and \<open>.pptx\<close> give ppt; everything else gives stream. Two names
  that differ only in letter case are classified alike; \<open>a.DOCX\<close> is a doc and
  \<open>a.xyz\<close> a stream.
\<close>

theorem detectFeishuFileType_table:
  "detectFeishuFileType plat fileName = classify_by_table (toLowerCase (extname plat fileName)) \<and>
   extname plat fileName = component_ext (basename plat fileName) \<and>
   (toLowerCase fileName = toLowerCase other \<longrightarrow>
      detectFeishuFileType plat fileName = detectFeishuFileType plat other) \<and>
   FeishuFileType_text (detectFeishuFileType plat ''a.DOCX'') = ''doc'' \<and>
   FeishuFileType_text (detectFeishuFileType plat ''a.xyz'') = ''stream''"
proof -
  have tab: "\<And>f. detectFeishuFileType plat f = classify_by_table (extname plat (toLowerCase f))"
    by (simp add: detect_table extname_toLowerCase)
  have ci: "toLowerCase fileName = toLowerCase other \<longrightarrow>
      detectFeishuFileType plat fileName = detectFeishuFileType plat other"
    by (simp add: tab)
  have docx: "extname plat ''a.DOCX'' = ''.DOCX''"
    by (cases plat; hypsubst; code_simp)
  have xyz: "extname plat ''a.xyz'' = ''.xyz''"
    by (cases plat; hypsubst; code_simp)
  have e1: "detectFeishuFileType plat ''a.DOCX'' = Doc"
    unfolding detect_table docx by code_simp
  have e2: "detectFeishuFileType plat ''a.xyz'' = Stream"
    unfolding detect_table xyz by code_simp
  show ?thesis
    using ci extname_eq [of plat fileName]
    by (simp add: detect_table e1 [unfolded detect_table] e2 [unfolded detect_table])
qed

theorem detectFeishuFileType_table_witness:
  "toLowerCase ''Clip.MOV'' = toLowerCase ''clip.mov'' \<and>
   detectFeishuFileType Win32 ''Clip.MOV'' = detectFeishuFileType Win32 ''clip.mov'' \<and>
   detectFeishuFileType Win32 ''Clip.MOV'' = Mp4"
proof -
  have h: "toLowerCase ''Clip.MOV'' = toLowerCase ''clip.mov''"
    by code_simp
  have v: "detectFeishuFileType Win32 ''Clip.MOV'' = Mp4"
    by code_simp
  from detectFeishuFileType_table [of Win32 "''Clip.MOV''" "''clip.mov''"] h v
  show ?thesis by simp
qed

text \<open>
  Claim C10. The three classifiers go by \<open>extname\<close>: when the last component of the
  path has no dot after its first character (no dot at all, as in \<open>opus\<close>, or a dot
  file whose whole name is a listed extension, as in \<open>.opus\<close> and \<open>.png\<close>), the
  extension is empty, so \<open>detectFeishuFileType\<close> answers stream and
  \<open>isFeishuImagePath\<close> and \<open>isFeishuAudioPath\<close> answer false.
\<close>

theorem extname_empty_without_inner_dot:
  assumes "CHR ''.'' \<notin> set (tl (basename plat filePath))"
  shows "extname plat filePath = [] \<and>
         detectFeishuFileType plat filePath = Stream \<and>
         \<not> isFeishuImagePath plat filePath \<and>
         \<not> isFeishuAudioPath plat filePath"
proof -
  have "extname plat filePath = []"
    using assms by (simp add: extname_eq component_ext_no_inner_dot)
  then show ?thesis
    by (simp add: detectFeishuFileType_def isFeishuImagePath_def isFeishuAudioPath_def
        IMAGE_EXTENSIONS_def toLowerCase_def)
qed

theorem extname_empty_without_inner_dot_witness:
  "(CHR ''.'' \<notin> set (tl (basename Posix ''opus'')) \<and>
    detectFeishuFileType Posix ''opus'' = Stream \<and> \<not> isFeishuAudioPath Posix ''opus'') \<and>
   (CHR ''.'' \<notin> set (tl (basename Posix ''.opus'')) \<and>
    detectFeishuFileType Posix ''.opus'' = Stream \<and> \<not> isFeishuAudioPath Posix ''.opus'') \<and>
   (CHR ''.'' \<notin> set (tl (basename Win32 ''.png'')) \<and>
    extname Win32 ''.png'' = [] \<and> \<not> isFeishuImagePath Win32 ''.png'')"
proof -
  have h1: "CHR ''.'' \<notin> set (tl (basename Posix ''opus''))" by code_simp
  have h2: "CHR ''.'' \<notin> set (tl (basename Posix ''.opus''))" by code_simp
  have h3: "CHR ''.'' \<notin> set (tl (basename Win32 ''.png''))" by code_simp
  show ?thesis
    using h1 h2 h3 extname_empty_without_inner_dot [OF h1]
      extname_empty_without_inner_dot [OF h2] extname_empty_without_inner_dot [OF h3]
    by simp
qed

subsection \<open>The upload functions\<close>


lemma show_nat_digit: "n < 10 \<Longrightarrow> show_nat n = [digit_char n]"
  by (simp add: show_nat.simps)

lemma size_text_eq:
  "size_text n = show_nat ((10 * n + 524288) div 1048576 div 10) @ ''.'' @
                 [digit_char ((10 * n + 524288) div 1048576 mod 10)]"
proof -
  have "(10 * (of_nat n / 1024 / 1024) + 1 / 2 :: rat) = of_nat (10 * n + 524288) / of_nat 1048576"
    by (simp add: field_simps)
  then have "\<lfloor>10 * (of_nat n / 1024 / 1024) + 1 / 2 :: rat\<rfloor> = int ((10 * n + 524288) div 1048576)"
    by (simp only: floor_divide_of_nat_eq)
  moreover have "\<bar>of_nat n / 1024 / 1024 :: rat\<bar> = of_nat n / 1024 / 1024"
    by simp
  moreover have "\<not> (of_nat n / 1024 / 1024 :: rat) < 0"
    by simp
  ultimately show ?thesis
    unfolding size_text_def toFixed1_def Let_def
    by (simp add: show_nat_digit)
qed

lemma image_try_oversize:
  "source_size fs src = Some n \<Longrightarrow> n > MAX_FILE_SIZE \<Longrightarrow>
   image_try fs cl w src t =
     (Inr \<lparr>success = False, imageKey = None,
          error = Some (JStr (''Image too large: '' @ size_text n @ ''MB (limit 30MB)''))\<rparr>, w)"
  by (auto simp add: image_try_def source_size_def split: source.splits sum.splits)

lemma file_try_oversize:
  "source_size fs src = Some n \<Longrightarrow> n > MAX_FILE_SIZE \<Longrightarrow>
   file_try fs cl w src name ft dur =
     (Inr \<lparr>fsuccess = False, fileKey = None,
          ferror = Some (JStr ((case src of Path p \<Rightarrow> ''File too large: ''
                                | Buffer b \<Rightarrow> ''Buffer too large: '') @
                               size_text n @ ''MB (limit 30MB)''))\<rparr>, w)"
  by (auto simp add: file_try_def source_size_def split: source.splits sum.splits)

lemma image_try_send:
  "source_size fs src = Some n \<Longrightarrow> n \<le> MAX_FILE_SIZE \<Longrightarrow>
   image_try fs cl w src t = image_send fs cl w src t"
  by (auto simp add: image_try_def source_size_def split: source.splits sum.splits)

lemma file_try_send:
  "source_size fs src = Some n \<Longrightarrow> n \<le> MAX_FILE_SIZE \<Longrightarrow>
   file_try fs cl w src name ft dur = file_send fs cl w src name ft dur"
  by (auto simp add: file_try_def source_size_def split: source.splits sum.splits)

lemma image_send_resolved:
  "stream_fails fs src = None \<Longrightarrow>
   outcome (image_create cl \<lparr>data_image_type = t, data_image = stream_of src\<rparr>) = Resolved r \<Longrightarrow>
   fst (image_send fs cl w src t) = image_response r"
  by (auto simp add: image_send_def stream_fails_def stream_of_def Let_def split: source.splits)

lemma file_send_resolved:
  "stream_fails fs src = None \<Longrightarrow>
   outcome (file_create cl \<lparr>data_file_type = ft, data_file_name = name,
                            data_file = stream_of src, data_duration = dur\<rparr>) = Resolved r \<Longrightarrow>
   fst (file_send fs cl w src name ft dur) = file_response r"
  by (auto simp add: file_send_def stream_fails_def stream_of_def Let_def split: source.splits)

lemma uploadImage_fst:
  "fst (uploadImageToFeishu fs cl w src ty) =
     (case fst (image_try fs cl w src (case ty of None \<Rightarrow> Message | Some t \<Rightarrow> t)) of
        Inr res \<Rightarrow> Inr res
      | Inl err \<Rightarrow>
          (case get_prop err ''message'' of
             Inl e \<Rightarrow> Inl e
           | Inr m \<Rightarrow> Inr \<lparr>success = False, imageKey = None, error = Some m\<rparr>))"
  by (simp add: uploadImageToFeishu_def split: prod.splits sum.splits)

lemma uploadImage_snd:
  "snd (uploadImageToFeishu fs cl w src ty) =
     snd (image_try fs cl w src (case ty of None \<Rightarrow> Message | Some t \<Rightarrow> t))"
  by (simp add: uploadImageToFeishu_def split: prod.splits sum.splits)

lemma uploadFile_fst:
  "fst (uploadFileToFeishu fs cl w src name ft dur) =
     (case fst (file_try fs cl w src name ft dur) of
        Inr res \<Rightarrow> Inr res
      | Inl err \<Rightarrow>
          (case get_prop err ''message'' of
             Inl e \<Rightarrow> Inl e
           | Inr m \<Rightarrow> Inr \<lparr>fsuccess = False, fileKey = None, ferror = Some m\<rparr>))"
  by (simp add: uploadFileToFeishu_def split: prod.splits sum.splits)

lemma uploadFile_snd:
  "snd (uploadFileToFeishu fs cl w src name ft dur) = snd (file_try fs cl w src name ft dur)"
  by (simp add: uploadFileToFeishu_def split: prod.splits sum.splits)


text \<open>
  Claim C1. A byte source, buffer or file path, whose length exceeds 31,457,280 bytes
  (30 MiB, the value of \<open>MAX_FILE_SIZE\<close>) makes both upload functions return a failure
  whose message holds the size in MiB with one digit after the point (the number of
  tenths is \<open>10 * n / 2^20\<close> rounded half up), and the world they return is the one
  they were given: no request is submitted to \<^verbatim>\<open>client.im.image.create\<close> or
  \<^verbatim>\<open>client.im.file.create\<close>.
\<close>

theorem oversize_never_submitted:
  assumes "source_size fs src = Some n" and "n > 31457280"
  shows "MAX_FILE_SIZE = 31457280 \<and>
         uploadImageToFeishu fs cl w src ty =
           (Inr \<lparr>success = False, imageKey = None,
                error = Some (JStr (''Image too large: '' @ size_text n @ ''MB (limit 30MB)''))\<rparr>,
            w) \<and>
         uploadFileToFeishu fs cl w src name ft dur =
           (Inr \<lparr>fsuccess = False, fileKey = None,
                ferror = Some (JStr ((case src of Path p \<Rightarrow> ''File too large: ''
                                      | Buffer b \<Rightarrow> ''Buffer too large: '') @
                                     size_text n @ ''MB (limit 30MB)''))\<rparr>,
            w) \<and>
         calls (snd (uploadImageToFeishu fs cl w src ty)) = calls w \<and>
         calls (snd (uploadFileToFeishu fs cl w src name ft dur)) = calls w \<and>
         size_text n = show_nat ((10 * n + 524288) div 1048576 div 10) @ ''.'' @
                       [digit_char ((10 * n + 524288) div 1048576 mod 10)]"
proof -
  have m: "MAX_FILE_SIZE = 31457280"
    by (simp add: MAX_FILE_SIZE_def)
  with assms have big: "n > MAX_FILE_SIZE" by simp
  have i: "uploadImageToFeishu fs cl w src ty =
           (Inr \<lparr>success = False, imageKey = None,
                error = Some (JStr (''Image too large: '' @ size_text n @ ''MB (limit 30MB)''))\<rparr>,
            w)"
    by (simp add: uploadImageToFeishu_def image_try_oversize [OF assms(1) big])
  have f: "uploadFileToFeishu fs cl w src name ft dur =
           (Inr \<lparr>fsuccess = False, fileKey = None,
                ferror = Some (JStr ((case src of Path p \<Rightarrow> ''File too large: ''
                                      | Buffer b \<Rightarrow> ''Buffer too large: '') @
                                     size_text n @ ''MB (limit 30MB)''))\<rparr>,
            w)"
    by (simp add: uploadFileToFeishu_def file_try_oversize [OF assms(1) big])
  show ?thesis
    by (simp only: m i f snd_conv size_text_eq [symmetric] simp_thms)
qed

text \<open>A buffer of 30 MiB and one byte: the message says 30.0MB.\<close>

theorem oversize_never_submitted_witness:
  "source_size (fs_sized 0) (Buffer (replicate 31457281 0)) = Some 31457281 \<and>
   (31457281 :: nat) > 31457280 \<and>
   uploadImageToFeishu (fs_sized 0) (replying JNull) w0 (Buffer (replicate 31457281 0)) None =
     (Inr \<lparr>success = False, imageKey = None,
          error = Some (JStr ''Image too large: 30.0MB (limit 30MB)'')\<rparr>, w0) \<and>
   uploadFileToFeishu (fs_sized 0) (replying JNull) w0 (Buffer (replicate 31457281 0))
       ''a.bin'' Stream None =
     (Inr \<lparr>fsuccess = False, fileKey = None,
          ferror = Some (JStr ''Buffer too large: 30.0MB (limit 30MB)'')\<rparr>, w0)"
proof -
  have h1: "source_size (fs_sized 0) (Buffer (replicate 31457281 0)) = Some 31457281"
    by (simp add: source_size_def)
  have h2: "(31457281 :: nat) > 31457280" by simp
  have t: "size_text 31457281 = ''30.0''"
    by (simp add: size_text_eq show_nat.simps digit_char_def)
  show ?thesis
    using h1 oversize_never_submitted [OF h1 h2, of "replying JNull" w0 None "''a.bin''" Stream None]
    by (simp add: t)
qed

lemma image_response_code:
  "get_prop r ''code'' = Inr c \<Longrightarrow>
   image_response r =
     Inr (if c \<noteq> JUndefined \<and> c \<noteq> JNum 0
          then \<lparr>success = False, imageKey = None,
                error = Some (JStr (''Feishu error: '' @
                  (if truthy (own_prop r ''msg'') then js_toString (own_prop r ''msg'')
                   else ''code '' @ js_toString c)))\<rparr>
          else if truthy (response_key r ''image_key'')
          then \<lparr>success = True, imageKey = Some (response_key r ''image_key''), error = None\<rparr>
          else \<lparr>success = False, imageKey = None,
                error = Some (JStr ''No image_key returned'')\<rparr>)"
  by (simp add: image_response_def response_key_def nullish_coalesce_def Let_def)

lemma file_response_code:
  "get_prop r ''code'' = Inr c \<Longrightarrow>
   file_response r =
     Inr (if c \<noteq> JUndefined \<and> c \<noteq> JNum 0
          then \<lparr>fsuccess = False, fileKey = None,
                ferror = Some (JStr (''Feishu error: '' @
                  (if truthy (own_prop r ''msg'') then js_toString (own_prop r ''msg'')
                   else ''code '' @ js_toString c)))\<rparr>
          else if truthy (response_key r ''file_key'')
          then \<lparr>fsuccess = True, fileKey = Some (response_key r ''file_key''), ferror = None\<rparr>
          else \<lparr>fsuccess = False, fileKey = None,
                ferror = Some (JStr ''No file_key returned'')\<rparr>)"
  by (simp add: file_response_def response_key_def nullish_coalesce_def Let_def)

lemma uploadImage_resolved:
  assumes "source_size fs src = Some n" "n \<le> MAX_FILE_SIZE" "stream_fails fs src = None"
    "image_reply cl src ty = Resolved r" "get_prop r ''code'' = Inr c"
  shows "fst (uploadImageToFeishu fs cl w src ty) = image_response r"
  using assms
  by (simp add: uploadImage_fst image_try_send image_send_resolved image_reply_def
      image_response_code)

lemma uploadFile_resolved:
  assumes "source_size fs src = Some n" "n \<le> MAX_FILE_SIZE" "stream_fails fs src = None"
    "file_reply cl src name ft dur = Resolved r" "get_prop r ''code'' = Inr c"
  shows "fst (uploadFileToFeishu fs cl w src name ft dur) = file_response r"
  using assms
  by (simp add: uploadFile_fst file_try_send file_send_resolved file_reply_def
      file_response_code)

text \<open>
  Claim C2, as amended. For a byte source of at most 31,457,280 bytes whose stream is
  built, when the response of the remote endpoint has code 0 or no code and its key
  (\<open>response_key\<close>: the top-level field, else the one under \<open>data\<close>) is truthy, for
  text non-empty, \<open>uploadImageToFeishu\<close> returns success with that image key and
  \<open>uploadFileToFeishu\<close> success with that file key.
\<close>

theorem truthy_key_is_success:
  assumes "source_size fs src = Some n" and "n \<le> 31457280" and "stream_fails fs src = None"
    and "get_prop r ''code'' = Inr c" and "c = JNum 0 \<or> c = JUndefined"
  shows "(image_reply cl src ty = Resolved r \<and> truthy (response_key r ''image_key'') \<longrightarrow>
            fst (uploadImageToFeishu fs cl w src ty) =
              Inr \<lparr>success = True, imageKey = Some (response_key r ''image_key''),
                   error = None\<rparr>) \<and>
         (file_reply cl src name ft dur = Resolved r \<and> truthy (response_key r ''file_key'') \<longrightarrow>
            fst (uploadFileToFeishu fs cl w src name ft dur) =
              Inr \<lparr>fsuccess = True, fileKey = Some (response_key r ''file_key''),
                   ferror = None\<rparr>)"
proof -
  from assms(2) have le: "n \<le> MAX_FILE_SIZE" by (simp add: MAX_FILE_SIZE_def)
  note i = uploadImage_resolved [OF assms(1) le assms(3) _ assms(4)]
  note f = uploadFile_resolved [OF assms(1) le assms(3) _ assms(4)]
  show ?thesis
    using assms(5)
    by (auto simp add: i f image_response_code [OF assms(4)] file_response_code [OF assms(4)])
qed


text \<open>A key under \<open>data\<close> with code 0, and a top-level key with no code.\<close>

theorem truthy_key_is_success_witness:
  "source_size (fs_sized 2048) (Path ''/tmp/a.png'') = Some 2048 \<and>
   (2048 :: nat) \<le> 31457280 \<and>
   stream_fails (fs_sized 2048) (Path ''/tmp/a.png'') = None \<and>
   get_prop (JObj [(''code'', JNum 0), (''data'', JObj [(''image_key'', JStr ''img_1'')])])
      ''code'' = Inr (JNum 0) \<and>
   fst (uploadImageToFeishu (fs_sized 2048)
          (replying (JObj [(''code'', JNum 0), (''data'', JObj [(''image_key'', JStr ''img_1'')])]))
          w0 (Path ''/tmp/a.png'') None) =
     Inr \<lparr>success = True, imageKey = Some (JStr ''img_1''), error = None\<rparr> \<and>
   fst (uploadFileToFeishu (fs_sized 2048)
          (replying (JObj [(''file_key'', JStr ''file_1'')]))
          w0 (Path ''/tmp/a.pdf'') ''a.pdf'' Pdf None) =
     Inr \<lparr>fsuccess = True, fileKey = Some (JStr ''file_1''), ferror = None\<rparr>"
proof -
  define r1 where "r1 = JObj [(''code'', JNum 0), (''data'', JObj [(''image_key'', JStr ''img_1'')])]"
  define r2 where "r2 = JObj [(''file_key'', JStr ''file_1'')]"
  have s1: "source_size (fs_sized 2048) (Path ''/tmp/a.png'') = Some 2048"
    and s2: "source_size (fs_sized 2048) (Path ''/tmp/a.pdf'') = Some 2048"
    by (simp_all add: source_size_def fs_sized_def)
  have le: "(2048 :: nat) \<le> 31457280" by simp
  have f1: "stream_fails (fs_sized 2048) (Path ''/tmp/a.png'') = None"
    and f2: "stream_fails (fs_sized 2048) (Path ''/tmp/a.pdf'') = None"
    by (simp_all add: stream_fails_def fs_sized_def)
  have c1: "get_prop r1 ''code'' = Inr (JNum 0)"
    by (simp add: r1_def get_prop_def)
  have c2: "get_prop r2 ''code'' = Inr JUndefined"
    by (simp add: r2_def get_prop_def)
  have k1: "response_key r1 ''image_key'' = JStr ''img_1''"
    by (simp add: r1_def response_key_def opt_chain_def)
  have k2: "response_key r2 ''file_key'' = JStr ''file_1''"
    by (simp add: r2_def response_key_def)
  have i: "image_reply (replying r1) (Path ''/tmp/a.png'') None = Resolved r1"
    by (simp add: image_reply_def replying_def)
  have f: "file_reply (replying r2) (Path ''/tmp/a.pdf'') ''a.pdf'' Pdf None = Resolved r2"
    by (simp add: file_reply_def replying_def)
  from truthy_key_is_success [OF s1 le f1 c1, where cl = "replying r1" and ty = None and w = w0]
  have a: "fst (uploadImageToFeishu (fs_sized 2048) (replying r1) w0 (Path ''/tmp/a.png'') None) =
     Inr \<lparr>success = True, imageKey = Some (JStr ''img_1''), error = None\<rparr>"
    using i k1 by simp
  from truthy_key_is_success [OF s2 le f2 c2, where cl = "replying r2" and name = "''a.pdf''"
      and ft = Pdf and dur = None and w = w0]
  have b: "fst (uploadFileToFeishu (fs_sized 2048) (replying r2) w0 (Path ''/tmp/a.pdf'')
             ''a.pdf'' Pdf None) =
     Inr \<lparr>fsuccess = True, fileKey = Some (JStr ''file_1''), ferror = None\<rparr>"
    using f k2 by simp
  show ?thesis
    using s1 le f1 c1 a b unfolding r1_def r2_def by simp
qed

text \<open>
  Claim C2 as stated fails: the response has code 0 and a key that is present, the
  empty string, and both functions return a failure.
\<close>

theorem present_empty_key_counterexample:
  "source_size (fs_sized 0) (Buffer []) = Some 0 \<and>
   get_prop (JObj [(''code'', JNum 0), (''image_key'', JStr [])]) ''code'' = Inr (JNum 0) \<and>
   own_prop (JObj [(''code'', JNum 0), (''image_key'', JStr [])]) ''image_key'' \<noteq> JUndefined \<and>
   fst (uploadImageToFeishu (fs_sized 0)
          (replying (JObj [(''code'', JNum 0), (''image_key'', JStr [])])) w0 (Buffer []) None) =
     Inr \<lparr>success = False, imageKey = None, error = Some (JStr ''No image_key returned'')\<rparr> \<and>
   fst (uploadFileToFeishu (fs_sized 0)
          (replying (JObj [(''code'', JNum 0), (''file_key'', JStr [])])) w0 (Buffer [])
          ''a.bin'' Stream None) =
     Inr \<lparr>fsuccess = False, fileKey = None, ferror = Some (JStr ''No file_key returned'')\<rparr>"
  by (simp add: source_size_def get_prop_def uploadImageToFeishu_def image_try_def
      image_send_def image_response_def uploadFileToFeishu_def file_try_def file_send_def
      file_response_def replying_def w0_def fs_sized_def MAX_FILE_SIZE_def
      nullish_coalesce_def opt_chain_def Let_def)

text \<open>
  Claim C3, as amended. In both upload functions a response whose code is present and
  not 0 gives a failure whose message is \<open>Feishu error: \<close> followed by the response's
  \<open>msg\<close> when that is truthy (for text: non-empty), else by \<open>code N\<close> with \<open>N\<close> the code;
  a response with no code field is not a remote failure: the outcome then depends on the
  key alone.
\<close>

theorem nonzero_code_is_failure:
  assumes "source_size fs src = Some n" and "n \<le> 31457280" and "stream_fails fs src = None"
    and "get_prop r ''code'' = Inr c"
  shows "(c \<noteq> JUndefined \<and> c \<noteq> JNum 0 \<and> image_reply cl src ty = Resolved r \<longrightarrow>
            fst (uploadImageToFeishu fs cl w src ty) =
              Inr \<lparr>success = False, imageKey = None,
                   error = Some (JStr (''Feishu error: '' @
                     (if truthy (own_prop r ''msg'') then js_toString (own_prop r ''msg'')
                      else ''code '' @ js_toString c)))\<rparr>) \<and>
         (c \<noteq> JUndefined \<and> c \<noteq> JNum 0 \<and> file_reply cl src name ft dur = Resolved r \<longrightarrow>
            fst (uploadFileToFeishu fs cl w src name ft dur) =
              Inr \<lparr>fsuccess = False, fileKey = None,
                   ferror = Some (JStr (''Feishu error: '' @
                     (if truthy (own_prop r ''msg'') then js_toString (own_prop r ''msg'')
                      else ''code '' @ js_toString c)))\<rparr>) \<and>
         (c = JUndefined \<and> image_reply cl src ty = Resolved r \<longrightarrow>
            fst (uploadImageToFeishu fs cl w src ty) =
              Inr (if truthy (response_key r ''image_key'')
                   then \<lparr>success = True, imageKey = Some (response_key r ''image_key''),
                         error = None\<rparr>
                   else \<lparr>success = False, imageKey = None,
                         error = Some (JStr ''No image_key returned'')\<rparr>)) \<and>
         (c = JUndefined \<and> file_reply cl src name ft dur = Resolved r \<longrightarrow>
            fst (uploadFileToFeishu fs cl w src name ft dur) =
              Inr (if truthy (response_key r ''file_key'')
                   then \<lparr>fsuccess = True, fileKey = Some (response_key r ''file_key''),
                         ferror = None\<rparr>
                   else \<lparr>fsuccess = False, fileKey = None,
                         ferror = Some (JStr ''No file_key returned'')\<rparr>))"
proof -
  from assms(2) have le: "n \<le> MAX_FILE_SIZE" by (simp add: MAX_FILE_SIZE_def)
  note i = uploadImage_resolved [OF assms(1) le assms(3) _ assms(4)]
  note f = uploadFile_resolved [OF assms(1) le assms(3) _ assms(4)]
  show ?thesis
    by (auto simp add: i f image_response_code [OF assms(4)] file_response_code [OF assms(4)])
qed

text \<open>
  Code 1 with msg \<open>invalid\<close> gives \<open>Feishu error: invalid\<close>; a code without msg gives
  \<open>code N\<close>; a response without code and with a key is a success.
\<close>

theorem nonzero_code_is_failure_witness:
  "source_size (fs_sized 0) (Buffer []) = Some 0 \<and> (0 :: nat) \<le> 31457280 \<and>
   stream_fails (fs_sized 0) (Buffer []) = None \<and>
   get_prop (JObj [(''code'', JNum 1), (''msg'', JStr ''invalid'')]) ''code'' = Inr (JNum 1) \<and>
   fst (uploadImageToFeishu (fs_sized 0)
          (replying (JObj [(''code'', JNum 1), (''msg'', JStr ''invalid'')])) w0 (Buffer []) None) =
     Inr \<lparr>success = False, imageKey = None, error = Some (JStr ''Feishu error: invalid'')\<rparr> \<and>
   fst (uploadFileToFeishu (fs_sized 0)
          (replying (JObj [(''code'', JNum 99991663)])) w0 (Buffer []) ''a.bin'' Stream None) =
     Inr \<lparr>fsuccess = False, fileKey = None,
          ferror = Some (JStr ''Feishu error: code 99991663'')\<rparr> \<and>
   fst (uploadImageToFeishu (fs_sized 0)
          (replying (JObj [(''image_key'', JStr ''img_1'')])) w0 (Buffer []) None) =
     Inr \<lparr>success = True, imageKey = Some (JStr ''img_1''), error = None\<rparr>"
proof -
  define r1 where "r1 = JObj [(''code'', JNum 1), (''msg'', JStr ''invalid'')]"
  define r2 where "r2 = JObj [(''code'', JNum 99991663)]"
  define r3 where "r3 = JObj [(''image_key'', JStr ''img_1'')]"
  have s: "source_size (fs_sized 0) (Buffer []) = Some 0"
    by (simp add: source_size_def)
  have le: "(0 :: nat) \<le> 31457280" by simp
  have sf: "stream_fails (fs_sized 0) (Buffer []) = None"
    by (simp add: stream_fails_def)
  have c1: "get_prop r1 ''code'' = Inr (JNum 1)"
    and c2: "get_prop r2 ''code'' = Inr (JNum 99991663)"
    and c3: "get_prop r3 ''code'' = Inr JUndefined"
    by (simp_all add: r1_def r2_def r3_def get_prop_def)
  have m1: "own_prop r1 ''msg'' = JStr ''invalid''" and m2: "own_prop r2 ''msg'' = JUndefined"
    by (simp_all add: r1_def r2_def)
  have k3: "response_key r3 ''image_key'' = JStr ''img_1''"
    by (simp add: r3_def response_key_def)
  have n2: "js_toString (JNum 99991663) = ''99991663''"
    by (simp add: show_int_def show_nat.simps digit_char_def)
  have i1: "image_reply (replying r1) (Buffer []) None = Resolved r1"
    and i3: "image_reply (replying r3) (Buffer []) None = Resolved r3"
    by (simp_all add: image_reply_def replying_def)
  have f2: "file_reply (replying r2) (Buffer []) ''a.bin'' Stream None = Resolved r2"
    by (simp add: file_reply_def replying_def)
  from nonzero_code_is_failure [OF s le sf c1, where cl = "replying r1" and ty = None and w = w0]
  have a: "fst (uploadImageToFeishu (fs_sized 0) (replying r1) w0 (Buffer []) None) =
     Inr \<lparr>success = False, imageKey = None, error = Some (JStr ''Feishu error: invalid'')\<rparr>"
    using i1 m1 by simp
  from nonzero_code_is_failure [OF s le sf c2, where cl = "replying r2" and name = "''a.bin''"
      and ft = Stream and dur = None and w = w0]
  have b: "fst (uploadFileToFeishu (fs_sized 0) (replying r2) w0 (Buffer []) ''a.bin'' Stream None) =
     Inr \<lparr>fsuccess = False, fileKey = None,
          ferror = Some (JStr ''Feishu error: code 99991663'')\<rparr>"
    using f2 m2 n2 by simp
  from nonzero_code_is_failure [OF s le sf c3, where cl = "replying r3" and ty = None and w = w0]
  have c: "fst (uploadImageToFeishu (fs_sized 0) (replying r3) w0 (Buffer []) None) =
     Inr \<lparr>success = True, imageKey = Some (JStr ''img_1''), error = None\<rparr>"
    using i3 k3 by simp
  show ?thesis
    using s le sf c1 a b c unfolding r1_def r2_def r3_def by simp
qed

text \<open>
  Claim C3 as stated fails: here \<open>msg\<close> is present, the empty string, and the message
  is the \<open>code N\<close> text, not the \<open>msg\<close>.
\<close>

theorem present_empty_msg_counterexample:
  "source_size (fs_sized 0) (Buffer []) = Some 0 \<and>
   get_prop (JObj [(''code'', JNum 1), (''msg'', JStr [])]) ''code'' = Inr (JNum 1) \<and>
   own_prop (JObj [(''code'', JNum 1), (''msg'', JStr [])]) ''msg'' = JStr [] \<and>
   own_prop (JObj [(''code'', JNum 1), (''msg'', JStr [])]) ''msg'' \<noteq> JUndefined \<and>
   fst (uploadImageToFeishu (fs_sized 0)
          (replying (JObj [(''code'', JNum 1), (''msg'', JStr [])])) w0 (Buffer []) None) =
     Inr \<lparr>success = False, imageKey = None, error = Some (JStr ''Feishu error: code 1'')\<rparr> \<and>
   fst (uploadFileToFeishu (fs_sized 0)
          (replying (JObj [(''code'', JNum 1), (''msg'', JStr [])])) w0 (Buffer [])
          ''a.bin'' Stream None) =
     Inr \<lparr>fsuccess = False, fileKey = None, ferror = Some (JStr ''Feishu error: code 1'')\<rparr>"
  by (simp add: source_size_def get_prop_def uploadImageToFeishu_def image_try_def
      image_send_def image_response_def uploadFileToFeishu_def file_try_def file_send_def
      file_response_def replying_def w0_def fs_sized_def MAX_FILE_SIZE_def
      show_int_def show_nat.simps digit_char_def Let_def)

text \<open>
  Claim C4. When the response indicates success (code absent or 0) and neither the
  top-level \<open>image_key\<close> nor \<open>data.image_key\<close> is present, \<open>uploadImageToFeishu\<close>
  returns the failure \<open>No image_key returned\<close>; \<open>uploadFileToFeishu\<close> does the same
  for \<open>file_key\<close>, with \<open>No file_key returned\<close>. The key is looked up at top level
  first and under \<open>data\<close> next: a truthy top-level key is the one returned whatever
  \<open>data\<close> holds, and the key under \<open>data\<close> is returned when the top-level one is
  absent.
\<close>

theorem absent_key_is_failure:
  assumes "source_size fs src = Some n" and "n \<le> 31457280" and "stream_fails fs src = None"
    and "get_prop r ''code'' = Inr c" and "c = JUndefined \<or> c = JNum 0"
  shows "(image_reply cl src ty = Resolved r \<and> own_prop r ''image_key'' = JUndefined \<and>
          opt_chain (own_prop r ''data'') ''image_key'' = JUndefined \<longrightarrow>
            fst (uploadImageToFeishu fs cl w src ty) =
              Inr \<lparr>success = False, imageKey = None,
                   error = Some (JStr ''No image_key returned'')\<rparr>) \<and>
         (file_reply cl src name ft dur = Resolved r \<and> own_prop r ''file_key'' = JUndefined \<and>
          opt_chain (own_prop r ''data'') ''file_key'' = JUndefined \<longrightarrow>
            fst (uploadFileToFeishu fs cl w src name ft dur) =
              Inr \<lparr>fsuccess = False, fileKey = None,
                   ferror = Some (JStr ''No file_key returned'')\<rparr>) \<and>
         (image_reply cl src ty = Resolved r \<and> truthy (own_prop r ''image_key'') \<longrightarrow>
            fst (uploadImageToFeishu fs cl w src ty) =
              Inr \<lparr>success = True, imageKey = Some (own_prop r ''image_key''), error = None\<rparr>) \<and>
         (file_reply cl src name ft dur = Resolved r \<and> truthy (own_prop r ''file_key'') \<longrightarrow>
            fst (uploadFileToFeishu fs cl w src name ft dur) =
              Inr \<lparr>fsuccess = True, fileKey = Some (own_prop r ''file_key''), ferror = None\<rparr>) \<and>
         (image_reply cl src ty = Resolved r \<and> own_prop r ''image_key'' = JUndefined \<and>
          truthy (opt_chain (own_prop r ''data'') ''image_key'') \<longrightarrow>
            fst (uploadImageToFeishu fs cl w src ty) =
              Inr \<lparr>success = True,
                   imageKey = Some (opt_chain (own_prop r ''data'') ''image_key''),
                   error = None\<rparr>) \<and>
         (file_reply cl src name ft dur = Resolved r \<and> own_prop r ''file_key'' = JUndefined \<and>
          truthy (opt_chain (own_prop r ''data'') ''file_key'') \<longrightarrow>
            fst (uploadFileToFeishu fs cl w src name ft dur) =
              Inr \<lparr>fsuccess = True,
                   fileKey = Some (opt_chain (own_prop r ''data'') ''file_key''),
                   ferror = None\<rparr>)"
proof -
  from assms(2) have le: "n \<le> MAX_FILE_SIZE" by (simp add: MAX_FILE_SIZE_def)
  note i = uploadImage_resolved [OF assms(1) le assms(3) _ assms(4)]
  note f = uploadFile_resolved [OF assms(1) le assms(3) _ assms(4)]
  have t: "\<And>v. truthy v \<Longrightarrow> \<not> nullish v"
    by (case_tac v) simp_all
  show ?thesis
    using assms(5)
    by (auto simp add: i f image_response_code [OF assms(4)] file_response_code [OF assms(4)]
        response_key_def dest: t)
qed

text \<open>A response \<^verbatim>\<open>{ code: 0 }\<close>.\<close>

theorem absent_key_is_failure_witness:
  "source_size (fs_sized 0) (Buffer []) = Some 0 \<and> (0 :: nat) \<le> 31457280 \<and>
   stream_fails (fs_sized 0) (Buffer []) = None \<and>
   get_prop (JObj [(''code'', JNum 0)]) ''code'' = Inr (JNum 0) \<and>
   own_prop (JObj [(''code'', JNum 0)]) ''image_key'' = JUndefined \<and>
   opt_chain (own_prop (JObj [(''code'', JNum 0)]) ''data'') ''image_key'' = JUndefined \<and>
   fst (uploadImageToFeishu (fs_sized 0) (replying (JObj [(''code'', JNum 0)])) w0
          (Buffer []) None) =
     Inr \<lparr>success = False, imageKey = None, error = Some (JStr ''No image_key returned'')\<rparr> \<and>
   fst (uploadFileToFeishu (fs_sized 0) (replying (JObj [(''code'', JNum 0)])) w0
          (Buffer []) ''a.bin'' Stream None) =
     Inr \<lparr>fsuccess = False, fileKey = None, ferror = Some (JStr ''No file_key returned'')\<rparr>"
proof -
  define r where "r = JObj [(''code'', JNum 0)]"
  have s: "source_size (fs_sized 0) (Buffer []) = Some 0"
    by (simp add: source_size_def)
  have le: "(0 :: nat) \<le> 31457280" by simp
  have sf: "stream_fails (fs_sized 0) (Buffer []) = None"
    by (simp add: stream_fails_def)
  have c: "get_prop r ''code'' = Inr (JNum 0)"
    by (simp add: r_def get_prop_def)
  have k: "own_prop r ''image_key'' = JUndefined" "own_prop r ''file_key'' = JUndefined"
    "opt_chain (own_prop r ''data'') ''image_key'' = JUndefined"
    "opt_chain (own_prop r ''data'') ''file_key'' = JUndefined"
    by (simp_all add: r_def opt_chain_def)
  have i: "image_reply (replying r) (Buffer []) None = Resolved r"
    by (simp add: image_reply_def replying_def)
  have f: "file_reply (replying r) (Buffer []) ''a.bin'' Stream None = Resolved r"
    by (simp add: file_reply_def replying_def)
  from absent_key_is_failure [OF s le sf c, where cl = "replying r" and ty = None and w = w0
      and name = "''a.bin''" and ft = Stream and dur = None]
  have "fst (uploadImageToFeishu (fs_sized 0) (replying r) w0 (Buffer []) None) =
     Inr \<lparr>success = False, imageKey = None, error = Some (JStr ''No image_key returned'')\<rparr> \<and>
     fst (uploadFileToFeishu (fs_sized 0) (replying r) w0 (Buffer []) ''a.bin'' Stream None) =
     Inr \<lparr>fsuccess = False, fileKey = None, ferror = Some (JStr ''No file_key returned'')\<rparr>"
    using i f k by simp
  then show ?thesis
    using s le sf c k unfolding r_def by simp
qed

text \<open>
  Claim C9. Success needs a truthy key, not merely a present one: the key is the first
  of the top-level field and the field under \<open>data\<close> that is neither undefined nor
  null, and it is then tested for truthiness. So a response with code 0 whose top-level
  \<open>image_key\<close> (or \<open>file_key\<close>) is the empty string gives the failure
  \<open>No image_key returned\<close> (or \<open>No file_key returned\<close>), whatever \<open>data\<close> holds.
\<close>

theorem key_must_be_truthy:
  assumes "source_size fs src = Some n" and "n \<le> 31457280" and "stream_fails fs src = None"
    and "get_prop r ''code'' = Inr c" and "c = JUndefined \<or> c = JNum 0"
  shows "(image_reply cl src ty = Resolved r \<longrightarrow>
            fst (uploadImageToFeishu fs cl w src ty) =
              Inr (if truthy (response_key r ''image_key'')
                   then \<lparr>success = True, imageKey = Some (response_key r ''image_key''),
                         error = None\<rparr>
                   else \<lparr>success = False, imageKey = None,
                         error = Some (JStr ''No image_key returned'')\<rparr>)) \<and>
         (file_reply cl src name ft dur = Resolved r \<longrightarrow>
            fst (uploadFileToFeishu fs cl w src name ft dur) =
              Inr (if truthy (response_key r ''file_key'')
                   then \<lparr>fsuccess = True, fileKey = Some (response_key r ''file_key''),
                         ferror = None\<rparr>
                   else \<lparr>fsuccess = False, fileKey = None,
                         ferror = Some (JStr ''No file_key returned'')\<rparr>)) \<and>
         (image_reply cl src ty = Resolved r \<and> own_prop r ''image_key'' = JStr [] \<longrightarrow>
            fst (uploadImageToFeishu fs cl w src ty) =
              Inr \<lparr>success = False, imageKey = None,
                   error = Some (JStr ''No image_key returned'')\<rparr>) \<and>
         (file_reply cl src name ft dur = Resolved r \<and> own_prop r ''file_key'' = JStr [] \<longrightarrow>
            fst (uploadFileToFeishu fs cl w src name ft dur) =
              Inr \<lparr>fsuccess = False, fileKey = None,
                   ferror = Some (JStr ''No file_key returned'')\<rparr>)"
proof -
  from assms(2) have le: "n \<le> MAX_FILE_SIZE" by (simp add: MAX_FILE_SIZE_def)
  note i = uploadImage_resolved [OF assms(1) le assms(3) _ assms(4)]
  note f = uploadFile_resolved [OF assms(1) le assms(3) _ assms(4)]
  show ?thesis
    using assms(5)
    by (auto simp add: i f image_response_code [OF assms(4)] file_response_code [OF assms(4)]
        response_key_def)
qed

text \<open>The top-level key is empty and \<open>data\<close> holds a key: a failure all the same.\<close>

theorem key_must_be_truthy_witness:
  "source_size (fs_sized 0) (Buffer []) = Some 0 \<and> (0 :: nat) \<le> 31457280 \<and>
   stream_fails (fs_sized 0) (Buffer []) = None \<and>
   get_prop (JObj [(''code'', JNum 0), (''image_key'', JStr []),
                   (''data'', JObj [(''image_key'', JStr ''img_1'')])]) ''code'' = Inr (JNum 0) \<and>
   opt_chain (own_prop (JObj [(''code'', JNum 0), (''image_key'', JStr []),
                              (''data'', JObj [(''image_key'', JStr ''img_1'')])]) ''data'')
      ''image_key'' = JStr ''img_1'' \<and>
   fst (uploadImageToFeishu (fs_sized 0)
          (replying (JObj [(''code'', JNum 0), (''image_key'', JStr []),
                           (''data'', JObj [(''image_key'', JStr ''img_1'')])]))
          w0 (Buffer []) None) =
     Inr \<lparr>success = False, imageKey = None, error = Some (JStr ''No image_key returned'')\<rparr> \<and>
   fst (uploadFileToFeishu (fs_sized 0)
          (replying (JObj [(''code'', JNum 0), (''file_key'', JStr []),
                           (''data'', JObj [(''file_key'', JStr ''file_1'')])]))
          w0 (Buffer []) ''a.bin'' Stream None) =
     Inr \<lparr>fsuccess = False, fileKey = None, ferror = Some (JStr ''No file_key returned'')\<rparr>"
proof -
  define r1 where "r1 = JObj [(''code'', JNum 0), (''image_key'', JStr []),
                              (''data'', JObj [(''image_key'', JStr ''img_1'')])]"
  define r2 where "r2 = JObj [(''code'', JNum 0), (''file_key'', JStr []),
                              (''data'', JObj [(''file_key'', JStr ''file_1'')])]"
  have s: "source_size (fs_sized 0) (Buffer []) = Some 0"
    by (simp add: source_size_def)
  have le: "(0 :: nat) \<le> 31457280" by simp
  have sf: "stream_fails (fs_sized 0) (Buffer []) = None"
    by (simp add: stream_fails_def)
  have c1: "get_prop r1 ''code'' = Inr (JNum 0)" and c2: "get_prop r2 ''code'' = Inr (JNum 0)"
    by (simp_all add: r1_def r2_def get_prop_def)
  have k1: "own_prop r1 ''image_key'' = JStr []" and k2: "own_prop r2 ''file_key'' = JStr []"
    by (simp_all add: r1_def r2_def)
  have d1: "opt_chain (own_prop r1 ''data'') ''image_key'' = JStr ''img_1''"
    by (simp add: r1_def opt_chain_def)
  have i: "image_reply (replying r1) (Buffer []) None = Resolved r1"
    by (simp add: image_reply_def replying_def)
  have f: "file_reply (replying r2) (Buffer []) ''a.bin'' Stream None = Resolved r2"
    by (simp add: file_reply_def replying_def)
  from key_must_be_truthy [OF s le sf c1, where cl = "replying r1" and ty = None and w = w0]
  have a: "fst (uploadImageToFeishu (fs_sized 0) (replying r1) w0 (Buffer []) None) =
     Inr \<lparr>success = False, imageKey = None, error = Some (JStr ''No image_key returned'')\<rparr>"
    using i k1 by blast
  from key_must_be_truthy [OF s le sf c2, where cl = "replying r2" and name = "''a.bin''"
      and ft = Stream and dur = None and w = w0]
  have b: "fst (uploadFileToFeishu (fs_sized 0) (replying r2) w0 (Buffer []) ''a.bin'' Stream None) =
     Inr \<lparr>fsuccess = False, fileKey = None, ferror = Some (JStr ''No file_key returned'')\<rparr>"
    using f k2 by blast
  show ?thesis
    using s le sf c1 d1 a b unfolding r1_def r2_def by simp
qed

subsection \<open>Exceptions and streams\<close>

lemma get_prop_not_nullish: "\<not> nullish v \<Longrightarrow> get_prop v k = Inr (own_prop v k)"
  by (simp add: get_prop_def)

lemma uploadImage_caught:
  "fst (image_try fs cl w src (case ty of None \<Rightarrow> Message | Some t \<Rightarrow> t)) = Inl e \<Longrightarrow>
   \<not> nullish e \<Longrightarrow>
   fst (uploadImageToFeishu fs cl w src ty) =
     Inr \<lparr>success = False, imageKey = None, error = Some (own_prop e ''message'')\<rparr>"
  by (simp add: uploadImage_fst get_prop_not_nullish)

lemma uploadFile_caught:
  "fst (file_try fs cl w src name ft dur) = Inl e \<Longrightarrow> \<not> nullish e \<Longrightarrow>
   fst (uploadFileToFeishu fs cl w src name ft dur) =
     Inr \<lparr>fsuccess = False, fileKey = None, ferror = Some (own_prop e ''message'')\<rparr>"
  by (simp add: uploadFile_fst get_prop_not_nullish)

lemma image_try_stat_throws:
  "statSync fs p = Inl e \<Longrightarrow> fst (image_try fs cl w (Path p) t) = Inl e"
  by (simp add: image_try_def)

lemma file_try_stat_throws:
  "statSync fs p = Inl e \<Longrightarrow> fst (file_try fs cl w (Path p) name ft dur) = Inl e"
  by (simp add: file_try_def)

lemma image_try_stream_throws:
  "source_size fs src = Some n \<Longrightarrow> n \<le> MAX_FILE_SIZE \<Longrightarrow> stream_fails fs src = Some e \<Longrightarrow>
   fst (image_try fs cl w src t) = Inl e"
  by (auto simp add: image_try_send image_send_def stream_fails_def split: source.splits)

lemma file_try_stream_throws:
  "source_size fs src = Some n \<Longrightarrow> n \<le> MAX_FILE_SIZE \<Longrightarrow> stream_fails fs src = Some e \<Longrightarrow>
   fst (file_try fs cl w src name ft dur) = Inl e"
  by (auto simp add: file_try_send file_send_def stream_fails_def split: source.splits)

lemma image_try_call_throws:
  "source_size fs src = Some n \<Longrightarrow> n \<le> MAX_FILE_SIZE \<Longrightarrow> stream_fails fs src = None \<Longrightarrow>
   image_reply cl src ty = Rejected e \<Longrightarrow>
   fst (image_try fs cl w src (case ty of None \<Rightarrow> Message | Some t \<Rightarrow> t)) = Inl e"
  by (auto simp add: image_try_send image_send_def stream_fails_def image_reply_def stream_of_def
      Let_def split: source.splits)

lemma file_try_call_throws:
  "source_size fs src = Some n \<Longrightarrow> n \<le> MAX_FILE_SIZE \<Longrightarrow> stream_fails fs src = None \<Longrightarrow>
   file_reply cl src name ft dur = Rejected e \<Longrightarrow>
   fst (file_try fs cl w src name ft dur) = Inl e"
  by (auto simp add: file_try_send file_send_def stream_fails_def file_reply_def stream_of_def
      Let_def split: source.splits)

text \<open>
  Where the \<^verbatim>\<open>catch\<close> block does its work: an exception \<open>e\<close> that is neither
  undefined nor null, raised by the file-size stat, by the stream construction or by the
  remote call of this very call, becomes a failure whose error is \<open>e.message\<close>.
\<close>

lemma caught_exception_is_failure:
  assumes "\<not> nullish e"
    and "(src = Path p \<and> statSync fs p = Inl e) \<or>
         (source_size fs src = Some n \<and> n \<le> MAX_FILE_SIZE \<and> stream_fails fs src = Some e) \<or>
         (source_size fs src = Some n \<and> n \<le> MAX_FILE_SIZE \<and> stream_fails fs src = None \<and>
          image_reply cl src ty = Rejected e \<and> file_reply cl src name ft dur = Rejected e)"
  shows "fst (uploadImageToFeishu fs cl w src ty) =
           Inr \<lparr>success = False, imageKey = None, error = Some (own_prop e ''message'')\<rparr> \<and>
         fst (uploadFileToFeishu fs cl w src name ft dur) =
           Inr \<lparr>fsuccess = False, fileKey = None, ferror = Some (own_prop e ''message'')\<rparr>"
proof -
  have "fst (image_try fs cl w src (case ty of None \<Rightarrow> Message | Some t \<Rightarrow> t)) = Inl e"
    using assms(2)
    by (auto intro: image_try_stat_throws image_try_stream_throws image_try_call_throws)
  moreover have "fst (file_try fs cl w src name ft dur) = Inl e"
    using assms(2)
    by (auto intro: file_try_stat_throws file_try_stream_throws file_try_call_throws)
  ultimately show ?thesis
    using assms(1) by (simp add: uploadImage_caught uploadFile_caught)
qed

text \<open>
  Claim C5, at the failing input. The claim says that no exception of the stat, the
  stream construction or the remote call reaches the caller, each becoming a failure
  with the exception's message, and the \<^verbatim>\<open>try\<close> and \<^verbatim>\<open>catch\<close> around both bodies
  are written to that end. When the remote call rejects with undefined or null, reading
  \<^verbatim>\<open>error.message\<close> in the \<^verbatim>\<open>catch\<close> block throws a TypeError, and both functions
  let it reach the caller.
\<close>

theorem nullish_exception_reaches_caller:
  "fst (uploadImageToFeishu (fs_sized 0) (rejecting JUndefined) w0 (Buffer []) None) =
     Inl (mk_error ''TypeError''
            (''Cannot read properties of undefined (reading '' @ [CHR 0x27] @ ''message'' @
             [CHR 0x27] @ '')'')) \<and>
   fst (uploadFileToFeishu (fs_sized 0) (rejecting JNull) w0 (Buffer []) ''a.bin'' Stream None) =
     Inl (mk_error ''TypeError''
            (''Cannot read properties of null (reading '' @ [CHR 0x27] @ ''message'' @
             [CHR 0x27] @ '')''))"
  by (simp add: uploadImageToFeishu_def image_try_def image_send_def uploadFileToFeishu_def
      file_try_def file_send_def rejecting_def w0_def MAX_FILE_SIZE_def get_prop_def Let_def)

text \<open>
  Claim C8, as amended. The upload functions create at most one file stream, for a path
  source that passed the size check, and release nothing themselves: after the call the
  stream is open unless the remote call closed it, on the success path and on the error
  and exception paths alike. When the size check fails, the stat throws or the stream
  construction throws, no stream was created.
\<close>

theorem streams_are_left_to_the_client:
  "open_streams (snd (uploadImageToFeishu fs cl w src ty)) =
     open_streams w @
       (case src of
          Path p \<Rightarrow>
            if (case statSync fs p of Inl e \<Rightarrow> False | Inr n \<Rightarrow> n \<le> MAX_FILE_SIZE) \<and>
               createReadStream fs p = None \<and>
               \<not> closes_stream (image_create cl
                     \<lparr>data_image_type = (case ty of None \<Rightarrow> Message | Some t \<Rightarrow> t),
                      data_image = FileStream p\<rparr>)
            then [p] else []
        | Buffer b \<Rightarrow> []) \<and>
   open_streams (snd (uploadFileToFeishu fs cl w src name ft dur)) =
     open_streams w @
       (case src of
          Path p \<Rightarrow>
            if (case statSync fs p of Inl e \<Rightarrow> False | Inr n \<Rightarrow> n \<le> MAX_FILE_SIZE) \<and>
               createReadStream fs p = None \<and>
               \<not> closes_stream (file_create cl
                     \<lparr>data_file_type = ft, data_file_name = name,
                      data_file = FileStream p, data_duration = dur\<rparr>)
            then [p] else []
        | Buffer b \<Rightarrow> [])"
proof -
  have i: "open_streams (snd (image_try fs cl w src t)) =
     open_streams w @
       (case src of
          Path p \<Rightarrow>
            if (case statSync fs p of Inl e \<Rightarrow> False | Inr n \<Rightarrow> n \<le> MAX_FILE_SIZE) \<and>
               createReadStream fs p = None \<and>
               \<not> closes_stream (image_create cl \<lparr>data_image_type = t, data_image = FileStream p\<rparr>)
            then [p] else []
        | Buffer b \<Rightarrow> [])" for t
    by (auto simp add: image_try_def image_send_def Let_def
        split: source.splits sum.splits option.splits outcome.splits)
  have f: "open_streams (snd (file_try fs cl w src name ft dur)) =
     open_streams w @
       (case src of
          Path p \<Rightarrow>
            if (case statSync fs p of Inl e \<Rightarrow> False | Inr n \<Rightarrow> n \<le> MAX_FILE_SIZE) \<and>
               createReadStream fs p = None \<and>
               \<not> closes_stream (file_create cl
                     \<lparr>data_file_type = ft, data_file_name = name,
                      data_file = FileStream p, data_duration = dur\<rparr>)
            then [p] else []
        | Buffer b \<Rightarrow> [])"
    by (auto simp add: file_try_def file_send_def Let_def
        split: source.splits sum.splits option.splits outcome.splits)
  show ?thesis
    by (simp only: uploadImage_snd uploadFile_snd i f simp_thms)
qed

text \<open>
  Claim C8 as stated fails: the remote call throws before it reads the stream (a client
  object without \<^verbatim>\<open>im\<close>, for instance), the function returns its failure, and the
  stream it created is still open.
\<close>

theorem stream_left_open_counterexample:
  "fst (uploadImageToFeishu (fs_sized 2048) (rejecting (mk_error ''TypeError'' ''client.im is undefined''))
          w0 (Path ''/tmp/a.png'') None) =
     Inr \<lparr>success = False, imageKey = None, error = Some (JStr ''client.im is undefined'')\<rparr> \<and>
   open_streams w0 = [] \<and>
   open_streams (snd (uploadImageToFeishu (fs_sized 2048)
       (rejecting (mk_error ''TypeError'' ''client.im is undefined'')) w0 (Path ''/tmp/a.png'') None)) =
     [''/tmp/a.png''] \<and>
   open_streams (snd (uploadFileToFeishu (fs_sized 2048)
       (rejecting (mk_error ''TypeError'' ''client.im is undefined'')) w0 (Path ''/tmp/a.pdf'')
       ''a.pdf'' Pdf None)) =
     [''/tmp/a.pdf'']"
  by (simp add: uploadImageToFeishu_def image_try_def image_send_def uploadFileToFeishu_def
      file_try_def file_send_def rejecting_def w0_def fs_sized_def MAX_FILE_SIZE_def
      get_prop_def mk_error_def Let_def)

subsection \<open>Path resolution\<close>

lemma getSubstitution_plain:
  "CHR ''$'' \<notin> set t \<Longrightarrow> getSubstitution m b a t = t"
  by (induction m b a t rule: getSubstitution.induct) auto

lemma decodeURIComponent_plain:
  "CHR ''%'' \<notin> set s \<Longrightarrow> decodeURIComponent s = Inr s"
  by (induction s) auto

lemma decodeURIComponent_head:
  "c \<noteq> CHR ''%'' \<Longrightarrow> decodeURIComponent (c # s) = Inr r \<Longrightarrow> \<exists>t. r = c # t"
  by (auto split: sum.splits)

lemma split_first_prefix:
  "startsWith s pat \<Longrightarrow> split_first pat s = Some ([], drop (length pat) s)"
  by (cases s) (auto simp add: startsWith_def)

lemma js_replace_prefix:
  "startsWith s pat \<Longrightarrow>
   js_replace s pat t = getSubstitution pat [] (drop (length pat) s) t @ drop (length pat) s"
  by (simp add: js_replace_def split_first_prefix)

lemma startsWith_append: "startsWith s p \<Longrightarrow> s = p @ drop (length p) s"
  by (metis append_take_drop_id startsWith_def)

lemma startsWith_file3:
  assumes "startsWith raw ''file:///''"
  shows "startsWith raw ''file://'' \<and> drop 7 raw = CHR ''/'' # drop 8 raw"
proof -
  have "raw = ''file:///'' @ drop 8 raw"
    using startsWith_append [OF assms] by (simp add: eval_nat_numeral)
  then obtain t where r: "raw = ''file:///'' @ t" and t: "t = drop 8 raw" by blast
  show ?thesis
    unfolding t [symmetric] by (simp add: r startsWith_def)
qed

text \<open>
  What \<open>resolveFeishuMediaPath\<close> computes, transform by transform. A path that starts
  with \<open>file:///\<close> loses \<open>file://\<close> and is percent-decoded; what is left starts with a
  slash, so the second transform does not apply to it.
\<close>

lemma resolveFeishuMediaPath_file_url:
  assumes "startsWith rawPath ''file:///''"
  shows "resolveFeishuMediaPath home rawPath = decodeURIComponent (drop 7 rawPath)"
proof -
  from startsWith_file3 [OF assms]
  have p: "startsWith rawPath ''file://''" and d: "drop 7 rawPath = CHR ''/'' # drop 8 rawPath"
    by simp_all
  have rep: "js_replace rawPath ''file://'' [] = drop 7 rawPath"
    using js_replace_prefix [OF p, of "[]"] by (simp add: eval_nat_numeral)
  show ?thesis
  proof (cases "decodeURIComponent (drop 7 rawPath)")
    case (Inl e)
    then show ?thesis using assms by (simp add: resolveFeishuMediaPath_def rep)
  next
    case (Inr r)
    then obtain t where "r = CHR ''/'' # t"
      using decodeURIComponent_head [of "CHR ''/''" "drop 8 rawPath" r] d by auto
    then have "\<not> startsWith r ''~''" by (simp add: startsWith_def)
    then show ?thesis using assms Inr by (simp add: resolveFeishuMediaPath_def rep)
  qed
qed

text \<open>
  Any other path is returned as it is unless it starts with \<open>~\<close>; then the tilde is
  replaced by \<^verbatim>\<open>process.env.HOME || ''\<close> read as a replacement template.
\<close>

lemma resolveFeishuMediaPath_other:
  assumes "\<not> startsWith rawPath ''file:///''"
  shows "resolveFeishuMediaPath home rawPath =
           Inr (if startsWith rawPath ''~''
                then getSubstitution ''~'' [] (tl rawPath)
                       (case home of None \<Rightarrow> [] | Some h \<Rightarrow> h) @ tl rawPath
                else rawPath)"
proof (cases "startsWith rawPath ''~''")
  case True
  have h: "(case home of None \<Rightarrow> [] | Some h \<Rightarrow> if h \<noteq> [] then h else []) =
           (case home of None \<Rightarrow> [] | Some h \<Rightarrow> h)"
    by (simp split: option.splits)
  show ?thesis
    using assms True js_replace_prefix [OF True]
    by (simp add: resolveFeishuMediaPath_def h drop_Suc)
next
  case False
  then show ?thesis using assms by (simp add: resolveFeishuMediaPath_def)
qed

lemma resolveFeishuMediaPath_plain_home:
  assumes "\<not> startsWith rawPath ''file:///''" and "startsWith rawPath ''~''"
    and "CHR ''$'' \<notin> set (case home of None \<Rightarrow> [] | Some h \<Rightarrow> h)"
  shows "resolveFeishuMediaPath home rawPath =
           Inr ((case home of None \<Rightarrow> [] | Some h \<Rightarrow> h) @ tl rawPath)"
  using assms by (simp add: resolveFeishuMediaPath_other getSubstitution_plain)

text \<open>
  Claim C7, at concrete inputs. With \<^verbatim>\<open>HOME=/home/a$$b\<close> the tilde of \<^verbatim>\<open>~/x\<close> is not
  replaced by the home directory: \<^verbatim>\<open>String.prototype.replace\<close> reads \<^verbatim>\<open>$$\<close> in its
  replacement as one dollar sign. The other inputs behave as the claim says.
\<close>

theorem resolveFeishuMediaPath_dollar_home:
  "resolveFeishuMediaPath (Some ''/home/a$$b'') ''~/x'' = Inr ''/home/a$b/x'' \<and>
   resolveFeishuMediaPath (Some ''/home/u'') ''~/x'' = Inr ''/home/u/x'' \<and>
   resolveFeishuMediaPath None ''~/x'' = Inr ''/x'' \<and>
   resolveFeishuMediaPath (Some ''/home/u'') ''file:///Users/x/a b.png'' = Inr ''/Users/x/a b.png'' \<and>
   resolveFeishuMediaPath (Some ''/home/u'') ''file://host/a'' = Inr ''file://host/a''"
  by (simp add: resolveFeishuMediaPath_def startsWith_def js_replace_def)

end
